theory Spec2Isabelle
  imports Complex_Main "HOL-Library.AList" "HOL-Library.Char_ord" "HOL-Library.List_Lexorder"
begin

section \<open>Gulzar: the Nastaliq kerning plugin (qalamTools/NastaliqKerning.py)\<close>

text \<open>
  The plugin provides two verbs, \<open>NastaliqKerning\<close> and \<open>AtHeight\<close>. Both enumerate
  sequences of glyph groups, compute the height (rise) of each sequence and chain to a
  routine chosen by that height. This theory embeds the module function by function.

  Conventions of the embedding.
  \<^item> A glyph is its name, a \<open>string\<close>; a glyph class is a list of glyphs.
  \<^item> Python floats are modelled by the rationals they denote, with exact arithmetic.
    The module uses floats in three places: the division inside \<open>quantize\<close>, the
    tolerance \<open>maxtuck\<close> and the tapered distance of \<open>ink_to_ink_at\<close>. The printed
    form of a float is not computed here: it is the parameter \<open>str_float\<close>.
  \<^item> An exception is a value \<open>Inl e\<close>; a method that mutates \<open>self\<close> takes the state
    and returns the result together with the state it leaves behind, also when it raises.
  \<^item> Output on stderr, warnings, the progress bar and the logger are left out.
\<close>

subsection \<open>Module constants\<close>

type_synonym glyph = string

text \<open>A bin of \<open>bin_glyphs_by_metric\<close>: the glyphs of the group and its rise.\<close>

type_synonym rise_bin = "glyph list \<times> int"

definition accuracy1 :: nat where
  "accuracy1 = 3"

definition rise_quantization :: int where
  "rise_quantization = 100"

definition maximum_rise :: int where
  "maximum_rise = 600"

definition kern_quantization :: int where
  "kern_quantization = 10"

definition maximum_word_length :: nat where
  "maximum_word_length = 5"

subsection \<open>quantize\<close>

text \<open>
  Python's \<open>round\<close> of a float, with one argument: the nearest integer, a tie going to
  the even neighbour.
\<close>

definition py_round :: "rat \<Rightarrow> int" where
  "py_round x =
     (let f = \<lfloor>x\<rfloor>; d = x - of_int f
      in if d < 1 / 2 then f
         else if 1 / 2 < d then f + 1
         else if even f then f else f + 1)"

text \<open>
  \<^verbatim>\<open>def quantize(number, degree): return degree * round(number / degree)\<close>
  The module calls it with the constants 100 and 10 for \<open>degree\<close>, never with zero.
\<close>

definition quantize :: "int \<Rightarrow> int \<Rightarrow> int" where
  "quantize number degree = degree * py_round (of_int number / of_int degree)"

subsection \<open>Strings of numbers and the cache key\<close>

text \<open>\<open>str\<close> on a Python integer: decimal digits, a minus sign before a negative one.\<close>

definition digit_char :: "nat \<Rightarrow> char" where
  "digit_char d = ''0123456789'' ! d"

fun str_nat :: "nat \<Rightarrow> string" where
  "str_nat n = (if n < 10 then [digit_char n] else str_nat (n div 10) @ [digit_char (n mod 10)])"

declare str_nat.simps [simp del]

definition str_int :: "int \<Rightarrow> string" where
  "str_int i = (if i < 0 then CHR ''-'' # str_nat (nat (- i)) else str_nat (nat i))"

text \<open>\<open>sep.join(xs)\<close>.\<close>

fun join :: "string \<Rightarrow> string list \<Rightarrow> string" where
  "join sep [] = []"
| "join sep [x] = x"
| "join sep (x # y # ys) = x @ sep @ join sep (y # ys)"

subsection \<open>The collaborators of the plugin\<close>

datatype error =
    KeyError string
  | IndexError
  | ValueError string
  | SolverError string

text \<open>
  What the plugin reads from outside the module.
  \<^item> \<open>namedClasses\<close>: the glyph classes of the feature file (a missing name raises).
  \<^item> \<open>glyph_lsb\<close>, \<open>glyph_rsb\<close>: the side bearings of layer 0 of a glyph of the font.
  \<^item> \<open>determine_kern\<close>: the solver of \<open>qalamTools.determinekern\<close>, called with the two
    glyphs, the target distance, the height and the tolerance; it may raise.
  \<^item> \<open>bin_glyphs_by_metric\<close>: the clustering of \<open>glyphtools\<close>, by rise.
  \<^item> \<open>routineNamed\<close>: the routines already defined in the feature file, by name.
  \<^item> \<open>str_float\<close>: the printed form of a float.
  \<^item> \<open>list_of_set\<close>: the order in which Python lists the elements of a set built from
    the given elements (the language leaves it open).
\<close>

record env =
  namedClasses :: "string \<rightharpoonup> glyph list"
  glyph_lsb :: "glyph \<rightharpoonup> rat"
  glyph_rsb :: "glyph \<rightharpoonup> rat"
  determine_kern :: "glyph \<Rightarrow> glyph \<Rightarrow> int \<Rightarrow> int \<Rightarrow> rat \<Rightarrow> error + int"
  bin_glyphs_by_metric :: "glyph list \<Rightarrow> nat \<Rightarrow> error + rise_bin list"
  routineNamed :: "string \<rightharpoonup> nat"
  str_float :: "rat \<Rightarrow> string"
  list_of_set :: "glyph list \<Rightarrow> glyph list"

subsection \<open>Rules, routines and the state of the plugin\<close>

text \<open>
  The objects of \<open>fontFeatures\<close> the plugin builds. A routine or a reference to one
  lives in the heap and is known by its address, so that two rules can share one object;
  a rule is a value.
  \<^item> \<open>Chaining\<close>: the input glyph groups, the postcontext (empty when not given) and
    for each input position the routines to call there (\<open>None\<close> for Python's None).
  \<^item> \<open>Positioning\<close>: the glyph groups and for each the \<open>xAdvance\<close> of its value record
    (\<open>None\<close> for an empty \<open>ValueRecord()\<close>).
  \<^item> \<open>RoutineReference\<close>: what \<open>referenceRoutine\<close> returns, with the attribute
    \<open>_table\<close> the plugin sets on it. A Python dict keeps insertion order, so the kern
    table is an association list, updated with \<open>AList.update\<close>.
\<close>

type_synonym addr = nat

type_synonym kerntable = "(glyph \<times> (glyph \<times> int) list) list"

datatype rule =
    Chaining (input: "glyph list list") (postcontext: "glyph list list")
      (lookups: "addr list option list")
  | Positioning (glyphs: "glyph list list") (valuerecords: "int option list")

datatype obj =
    Routine (name: string) (flags: nat) (rules: "rule list")
      (markFilteringSet: "glyph list option")
  | RoutineReference (routine: addr) (table: "kerntable option")

text \<open>
  The attributes of \<open>self\<close>, and what the plugin changes outside itself: the entries of
  \<open>kerncache.db\<close> (\<open>shelve\<close>) with the state of its handle, the heap of routines and the
  routines registered with the feature file. \<open>solver_calls\<close> records every call of the
  solver, \<open>shelve_opens\<close> counts the calls of \<open>shelve.open\<close>; nothing reads them.
\<close>

record state =
  distance_at_closest :: int
  maxtuck :: rat
  ink_to_ink_routines :: "int \<rightharpoonup> addr"
  kern_at_rise :: "int \<rightharpoonup> addr"
  inits :: "glyph list"
  isols :: "glyph list"
  isols_finas :: "glyph list"
  shelve :: "string \<rightharpoonup> int"
  shelve_is_open :: bool
  shelve_opens :: nat
  solver_calls :: "(glyph \<times> glyph \<times> int \<times> int \<times> rat) list"
  heap :: "obj list"
  routines :: "addr list"

subsection \<open>determine_kern_cached\<close>

text \<open>
  \<^verbatim>\<open>key = "/".join(str(x) for x in [glyph1, glyph2, targetdistance, height, maxtuck])\<close>
\<close>

definition cache_key :: "env \<Rightarrow> glyph \<Rightarrow> glyph \<Rightarrow> int \<Rightarrow> int \<Rightarrow> rat \<Rightarrow> string" where
  "cache_key E glyph1 glyph2 targetdistance height mt =
     join ''/'' [glyph1, glyph2, str_int targetdistance, str_int height, str_float E mt]"

text \<open>
  \<^verbatim>\<open>
  if key in self.shelve:
      return self.shelve[key]
  result = determine_kern(font, glyph1, glyph2, targetdistance, height, maxtuck=maxtuck)
  self.shelve[key] = result
  return result
  \<close>
  A shelf that is not open refuses every operation with a ValueError.
\<close>

definition closed_shelf :: error where
  "closed_shelf = ValueError ''invalid operation on closed shelf''"

definition determine_kern_cached ::
  "env \<Rightarrow> glyph \<Rightarrow> glyph \<Rightarrow> int \<Rightarrow> int \<Rightarrow> rat \<Rightarrow> state \<Rightarrow> (error + int) \<times> state" where
  "determine_kern_cached E glyph1 glyph2 targetdistance height mt st =
     (let key = cache_key E glyph1 glyph2 targetdistance height mt
      in if \<not> shelve_is_open st then (Inl closed_shelf, st)
         else case shelve st key of
           Some v \<Rightarrow> (Inr v, st)
         | None \<Rightarrow>
             (let st1 = st\<lparr>solver_calls :=
                    solver_calls st @ [(glyph1, glyph2, targetdistance, height, mt)]\<rparr>
              in case determine_kern E glyph1 glyph2 targetdistance height mt of
                   Inl e \<Rightarrow> (Inl e, st1)
                 | Inr result \<Rightarrow> (Inr result, st1\<lparr>shelve := (shelve st1)(key \<mapsto> result)\<rparr>)))"

subsection \<open>Registering a routine\<close>

text \<open>
  \<open>fontfeatures.referenceRoutine(routine)\<close> of the library: the routine is appended to
  the routines of the feature file and a new reference to it is returned. The routine
  object and the reference are two new objects of the heap. The second argument is the
  \<open>_table\<close> the plugin gives the reference, if any. An object enters the heap with the
  contents it has once the plugin has filled it.
\<close>

definition referenceRoutine :: "obj \<Rightarrow> kerntable option \<Rightarrow> state \<Rightarrow> addr \<times> state" where
  "referenceRoutine r tbl st =
     (let a = length (heap st)
      in (Suc a, st\<lparr>heap := heap st @ [r, RoutineReference a tbl],
                      routines := routines st @ [a]\<rparr>))"

subsection \<open>ink_to_ink_at\<close>

text \<open>\<open>int\<close> on a float: truncation towards zero.\<close>

definition py_int :: "rat \<Rightarrow> int" where
  "py_int x = (if 0 \<le> x then \<lfloor>x\<rfloor> else \<lceil>x\<rceil>)"

text \<open>
  The inner loop, for one \<open>right\<close>:
  \<^verbatim>\<open>
  for left in self.inits + self.isols:
      right_of_left = max(font.glyphs[left].layers[0].rsb, 0)
      left_of_right = max(font.glyphs[right].layers[0].lsb, 0)
      dist = int(r_distance - (right_of_left + left_of_right))
      if dist == 0:
          continue
      ink_to_ink.rules.append(fontFeatures.Positioning([[right], [left]],
          [fontFeatures.ValueRecord(), fontFeatures.ValueRecord(xAdvance=dist)]))
  \<close>
\<close>

fun ink_to_ink_row :: "env \<Rightarrow> rat \<Rightarrow> glyph \<Rightarrow> glyph list \<Rightarrow> error + rule list" where
  "ink_to_ink_row E r_distance right [] = Inr []"
| "ink_to_ink_row E r_distance right (left # lefts) =
     (case glyph_rsb E left of
        None \<Rightarrow> Inl (KeyError left)
      | Some rsb \<Rightarrow>
     (case glyph_lsb E right of
        None \<Rightarrow> Inl (KeyError right)
      | Some lsb \<Rightarrow>
     (let right_of_left = max rsb 0;
          left_of_right = max lsb 0;
          dist = py_int (r_distance - (right_of_left + left_of_right))
      in case ink_to_ink_row E r_distance right lefts of
           Inl e \<Rightarrow> Inl e
         | Inr others \<Rightarrow>
             Inr (if dist = 0 then others
                  else Positioning [[right], [left]] [None, Some dist] # others))))"

text \<open>The outer loop, \<^verbatim>\<open>for right in self.isols_finas\<close>.\<close>

fun ink_to_ink_rows :: "env \<Rightarrow> rat \<Rightarrow> glyph list \<Rightarrow> glyph list \<Rightarrow> error + rule list" where
  "ink_to_ink_rows E r_distance [] lefts = Inr []"
| "ink_to_ink_rows E r_distance (right # rights) lefts =
     (case ink_to_ink_row E r_distance right lefts of
        Inl e \<Rightarrow> Inl e
      | Inr row \<Rightarrow>
     (case ink_to_ink_rows E r_distance rights lefts of
        Inl e \<Rightarrow> Inl e
      | Inr others \<Rightarrow> Inr (row @ others)))"

text \<open>
  \<^verbatim>\<open>
  r_distance = self.distance_at_closest
  if r == 100: r_distance *= 0.5
  if r == 200: r_distance *= 0.2
  if r == 300: r_distance *= 0.2
  \<close>
\<close>

definition taper :: "int \<Rightarrow> int \<Rightarrow> rat" where
  "taper distance r =
     (let r_distance = of_int distance;
          r_distance = (if r = 100 then r_distance * (1 / 2) else r_distance);
          r_distance = (if r = 200 then r_distance * (1 / 5) else r_distance);
          r_distance = (if r = 300 then r_distance * (1 / 5) else r_distance)
      in r_distance)"

definition ink_to_ink_at :: "env \<Rightarrow> int \<Rightarrow> state \<Rightarrow> (error + addr) \<times> state" where
  "ink_to_ink_at E r st =
     (case ink_to_ink_routines st r of
        Some a \<Rightarrow> (Inr a, st)
      | None \<Rightarrow>
     (case ink_to_ink_rows E (taper (distance_at_closest st) r) (isols_finas st)
             (inits st @ isols st) of
        Inl e \<Rightarrow> (Inl e, st)
      | Inr ink_rules \<Rightarrow>
     (let (ref, st1) =
            referenceRoutine (Routine (''ink_to_ink_'' @ str_int r) 12 ink_rules None) None st
      in (Inr ref, st1\<lparr>ink_to_ink_routines := (ink_to_ink_routines st1)(r \<mapsto> ref)\<rparr>))))"

subsection \<open>generate_kern_table_for_rise\<close>

text \<open>
  The inner loop of the table, for one \<open>end_of_previous_word\<close>:
  \<^verbatim>\<open>
  for initial in sorted(ends):
      kern = self.determine_kern_cached(self.parser.font, initial, end_of_previous_word,
                 self.distance_at_closest, height=r, maxtuck=maxtuck)
      if kern < -10:
          kerntable[end_of_previous_word][initial] = quantize(kern, kern_quantization)
  \<close>
\<close>

fun kern_row ::
  "env \<Rightarrow> int \<Rightarrow> glyph \<Rightarrow> glyph list \<Rightarrow> (glyph \<times> int) list \<Rightarrow> state
     \<Rightarrow> (error + (glyph \<times> int) list) \<times> state" where
  "kern_row E r end_of_previous_word [] row st = (Inr row, st)"
| "kern_row E r end_of_previous_word (initial # others) row st =
     (case determine_kern_cached E initial end_of_previous_word (distance_at_closest st) r
             (maxtuck st) st of
        (Inl e, st1) \<Rightarrow> (Inl e, st1)
      | (Inr kern, st1) \<Rightarrow>
          kern_row E r end_of_previous_word others
            (if kern < - 10 then AList.update initial (quantize kern kern_quantization) row
             else row) st1)"

text \<open>
  The outer loop: \<^verbatim>\<open>for end_of_previous_word in self.isols_finas\<close>, which sets
  \<^verbatim>\<open>kerntable[end_of_previous_word] = {}\<close> and fills that row.
\<close>

fun kern_rows ::
  "env \<Rightarrow> int \<Rightarrow> glyph list \<Rightarrow> glyph list \<Rightarrow> kerntable \<Rightarrow> state
     \<Rightarrow> (error + kerntable) \<times> state" where
  "kern_rows E r [] lefts kerntable st = (Inr kerntable, st)"
| "kern_rows E r (end_of_previous_word # others) lefts kerntable st =
     (case kern_row E r end_of_previous_word lefts [] st of
        (Inl e, st1) \<Rightarrow> (Inl e, st1)
      | (Inr row, st1) \<Rightarrow>
          kern_rows E r others lefts (AList.update end_of_previous_word row kerntable) st1)"

text \<open>The pair positioning rules of the routine, one for each entry of the table.\<close>

definition kern_rules :: "kerntable \<Rightarrow> rule list" where
  "kern_rules kerntable =
     concat (map (\<lambda>(left, kerns).
        map (\<lambda>(right, value). Positioning [[left], [right]] [None, Some value]) kerns)
       kerntable)"

text \<open>
  The left glyphs of the table:
  \<^verbatim>\<open>
  if r > 0: ends = self.inits
  else:     ends = self.inits + self.isols
  \<close>
\<close>

definition ends_at :: "state \<Rightarrow> int \<Rightarrow> glyph list" where
  "ends_at st r = (if 0 < r then inits st else inits st @ isols st)"

definition generate_kern_table_for_rise ::
  "env \<Rightarrow> int \<Rightarrow> state \<Rightarrow> (error + addr) \<times> state" where
  "generate_kern_table_for_rise E r0 st =
     (case kern_at_rise st r0 of
        Some a \<Rightarrow> (Inr a, st)
      | None \<Rightarrow>
     (let r = quantize r0 rise_quantization;
          ends = ends_at st r
      in case kern_rows E r (isols_finas st) (sort ends) [] st of
           (Inl e, st1) \<Rightarrow> (Inl e, st1)
         | (Inr kerntable, st1) \<Rightarrow>
     (case namedClasses E ''all_above_marks'' of
        None \<Rightarrow> (Inl (KeyError ''all_above_marks''), st1)
      | Some abovemarks \<Rightarrow>
     (let (kernroutine, st2) =
            referenceRoutine
              (Routine (''kern_at_'' @ str_int r) 12 (kern_rules kerntable) (Some abovemarks))
              (Some kerntable) st1
      in if 400 \<le> r then
           (Inr kernroutine, st2\<lparr>kern_at_rise := (kern_at_rise st2)(r \<mapsto> kernroutine)\<rparr>)
         else
           (case ink_to_ink_at E r st2 of
              (Inl e, st3) \<Rightarrow> (Inl e, st3)
            | (Inr ink, st3) \<Rightarrow>
           (let dispatch = length (heap st3);
                st4 = st3\<lparr>heap := heap st3 @
                  [Routine (''dispatch_'' @ str_int r) 8
                     [Chaining [isols_finas st3, [''space.urdu''], ends] []
                        [Some [ink], Some [], Some []],
                      Chaining [isols_finas st3, ends] []
                        [Some [kernroutine], Some [], Some []]]
                     None]\<rparr>
            in (Inr dispatch, st4\<lparr>kern_at_rise := (kern_at_rise st4)(r \<mapsto> dispatch)\<rparr>)))))))"

subsection \<open>NastaliqKerning.action\<close>

definition blockers :: "glyph list" where
  "blockers = [''AINf1'', ''JIMf1'']"

text \<open>
  The head of the loop body: the rise of the sequence and its glyph groups.
  \<^verbatim>\<open>
  word_tail_rise = quantize(sum([x[1] for x in postcontext_plus_rise]), rise_quantization)
  if word_tail_rise < 0:
      continue
  postcontext = list(reversed([x[0] for x in postcontext_plus_rise]))
  if word_tail_rise >= maximum_rise:
      word_tail_rise = maximum_rise
      if i == maximum_word_length:
          postcontext.pop()
  \<close>
  \<open>None\<close> stands for \<open>continue\<close>; \<open>pop\<close> on an empty list raises.
\<close>

definition word_tail :: "nat \<Rightarrow> rise_bin list \<Rightarrow> error + (int \<times> glyph list list) option" where
  "word_tail i postcontext_plus_rise =
     (let word_tail_rise = quantize (sum_list (map snd postcontext_plus_rise)) rise_quantization
      in if word_tail_rise < 0 then Inr None
         else
           (let postcontext = rev (map fst postcontext_plus_rise)
            in if maximum_rise \<le> word_tail_rise then
                 (if i = maximum_word_length then
                    (if postcontext = [] then Inl IndexError
                     else Inr (Some (maximum_rise, butlast postcontext)))
                  else Inr (Some (maximum_rise, postcontext)))
               else Inr (Some (word_tail_rise, postcontext))))"

text \<open>\<^verbatim>\<open>postcontext[-1] = group\<close>, on a list that is not empty.\<close>

definition set_last :: "'a list \<Rightarrow> 'a \<Rightarrow> 'a list" where
  "set_last xs x = butlast xs @ [x]"

text \<open>
  The rest of the loop body, once the table for the rise is known: the rule of the
  sequence, the rule of the blockers and the rule of the tall sequences.
  \<^verbatim>\<open>
  target = [self.isols_finas]
  lookups = [[self.generate_kern_table_for_rise(word_tail_rise)]]
  do_blockers = False
  if any(blocker in postcontext[-1] for blocker in blockers):
      postcontext[-1] = list(set(postcontext[-1]) - set(blockers))
      do_blockers = True
  routine.rules.append(Chaining(target, postcontext=[self.inits] + postcontext, lookups=lookups))
  if len(postcontext) > 1 and do_blockers:
      postcontext[-1] = blockers
      routine.rules.append(Chaining(target, postcontext=[self.inits] + postcontext, lookups=lookups))
  if word_tail_rise >= 400 and i > 4:
      postcontext[-1] = ["BARI_YEf1"]
      routine.rules.append(Chaining(target, postcontext=[self.inits] + postcontext, lookups=lookups))
  \<close>
  \<open>postcontext[-1]\<close> raises on an empty list. \<open>groups\<close> is the \<open>postcontext\<close> the head
  of the loop body leaves.
\<close>

definition chain_rules ::
  "env \<Rightarrow> state \<Rightarrow> nat \<Rightarrow> int \<Rightarrow> glyph list list \<Rightarrow> addr \<Rightarrow> error + rule list" where
  "chain_rules E st i word_tail_rise groups kern_table =
     (if groups = [] then Inl IndexError
      else
        (let target = [isols_finas st];
             lookups = [Some [kern_table]];
             do_blockers = (\<exists>blocker \<in> set blockers. blocker \<in> set (last groups));
             postcontext1 =
               (if do_blockers then
                  set_last groups
                    (list_of_set E (filter (\<lambda>g. g \<notin> set blockers) (last groups)))
                else groups);
             rules1 = [Chaining target (inits st # postcontext1) lookups];
             blocked = (1 < length postcontext1 \<and> do_blockers);
             postcontext2 = (if blocked then set_last postcontext1 blockers else postcontext1);
             rules2 =
               (if blocked then rules1 @ [Chaining target (inits st # postcontext2) lookups]
                else rules1);
             tall = (400 \<le> word_tail_rise \<and> 4 < i);
             postcontext3 = (if tall then set_last postcontext2 [''BARI_YEf1''] else postcontext2);
             rules3 =
               (if tall then rules2 @ [Chaining target (inits st # postcontext3) lookups]
                else rules2)
         in Inr rules3))"

text \<open>The whole loop body, for one element of \<open>all_options\<close>.\<close>

definition sequence_rules ::
  "env \<Rightarrow> nat \<Rightarrow> rise_bin list \<Rightarrow> state \<Rightarrow> (error + rule list) \<times> state" where
  "sequence_rules E i postcontext_plus_rise st =
     (case word_tail i postcontext_plus_rise of
        Inl e \<Rightarrow> (Inl e, st)
      | Inr None \<Rightarrow> (Inr [], st)
      | Inr (Some (word_tail_rise, groups)) \<Rightarrow>
     (case generate_kern_table_for_rise E word_tail_rise st of
        (Inl e, st1) \<Rightarrow> (Inl e, st1)
      | (Inr kern_table, st1) \<Rightarrow>
          (chain_rules E st1 i word_tail_rise groups kern_table, st1)))"

text \<open>The inner loop, \<^verbatim>\<open>for postcontext_plus_rise in all_options\<close>.\<close>

fun options_rules ::
  "env \<Rightarrow> nat \<Rightarrow> rise_bin list list \<Rightarrow> state \<Rightarrow> (error + rule list) \<times> state" where
  "options_rules E i [] st = (Inr [], st)"
| "options_rules E i (postcontext_plus_rise # others) st =
     (case sequence_rules E i postcontext_plus_rise st of
        (Inl e, st1) \<Rightarrow> (Inl e, st1)
      | (Inr new, st1) \<Rightarrow>
     (case options_rules E i others st1 of
        (Inl e, st2) \<Rightarrow> (Inl e, st2)
      | (Inr rest, st2) \<Rightarrow> (Inr (new @ rest), st2)))"

text \<open>
  \<^verbatim>\<open>all_options = product(*([binned_finas] + [binned_medis] * i))\<close>: the tuples in the
  order of \<open>itertools.product\<close>, the last position changing fastest.
\<close>

definition all_options :: "rise_bin list \<Rightarrow> rise_bin list \<Rightarrow> nat \<Rightarrow> rise_bin list list" where
  "all_options binned_finas binned_medis i =
     product_lists (binned_finas # replicate i binned_medis)"

text \<open>The outer loop over the lengths, \<^verbatim>\<open>for i in range(maximum_word_length, -1, -1)\<close>.\<close>

fun lengths_rules ::
  "env \<Rightarrow> rise_bin list \<Rightarrow> rise_bin list \<Rightarrow> nat list \<Rightarrow> state
     \<Rightarrow> (error + rule list) \<times> state" where
  "lengths_rules E binned_finas binned_medis [] st = (Inr [], st)"
| "lengths_rules E binned_finas binned_medis (i # others) st =
     (case options_rules E i (all_options binned_finas binned_medis i) st of
        (Inl e, st1) \<Rightarrow> (Inl e, st1)
      | (Inr new, st1) \<Rightarrow>
     (case lengths_rules E binned_finas binned_medis others st1 of
        (Inl e, st2) \<Rightarrow> (Inl e, st2)
      | (Inr rest, st2) \<Rightarrow> (Inr (new @ rest), st2)))"

definition word_lengths :: "nat list" where
  "word_lengths = rev [0 ..< Suc maximum_word_length]"

text \<open>\<open>namedClasses[name]\<close>.\<close>

definition named_class :: "env \<Rightarrow> string \<Rightarrow> error + glyph list" where
  "named_class E class_name =
     (case namedClasses E class_name of
        None \<Rightarrow> Inl (KeyError class_name)
      | Some c \<Rightarrow> Inr c)"

text \<open>
  The loops and what follows them: the rule for the isolates, \<open>self.shelve.close()\<close> and
  the routine returned.
\<close>

definition kerning_routine ::
  "env \<Rightarrow> rise_bin list \<Rightarrow> rise_bin list \<Rightarrow> state \<Rightarrow> (error + obj list) \<times> state" where
  "kerning_routine E binned_finas binned_medis st =
     (case lengths_rules E binned_finas binned_medis word_lengths st of
        (Inl e, st1) \<Rightarrow> (Inl e, st1)
      | (Inr emitted, st1) \<Rightarrow>
     (case generate_kern_table_for_rise E 0 st1 of
        (Inl e, st2) \<Rightarrow> (Inl e, st2)
      | (Inr kern_table, st2) \<Rightarrow>
          (Inr [Routine ''NastaliqKerning'' 12
                  (emitted @
                   [Chaining [isols_finas st2] [isols st2] [Some [kern_table]]])
                  None],
           st2\<lparr>shelve_is_open := False\<rparr>)))"

text \<open>
  The method, from its first line to the loops. The arguments are the two integers of
  the verb, after \<open>resolve_as_integer\<close>. \<open>shelve.open\<close> is taken to succeed.
\<close>

definition action :: "env \<Rightarrow> int \<Rightarrow> int \<Rightarrow> state \<Rightarrow> (error + obj list) \<times> state" where
  "action E units percentage st0 =
     (let st1 = st0\<lparr>distance_at_closest := units,
                     maxtuck := of_int percentage / 100,
                     ink_to_ink_routines := Map.empty\<rparr>;
          st2 = st1\<lparr>shelve_is_open := True, shelve_opens := Suc (shelve_opens st1)\<rparr>
      in case named_class E ''inits'' of
           Inl e \<Rightarrow> (Inl e, st2)
         | Inr inits_class \<Rightarrow>
     (let st3 = st2\<lparr>inits := inits_class\<rparr>
      in case named_class E ''medis'' of
           Inl e \<Rightarrow> (Inl e, st3)
         | Inr medis \<Rightarrow>
     (case named_class E ''bariye'' of
        Inl e \<Rightarrow> (Inl e, st3)
      | Inr bariye \<Rightarrow>
     (case named_class E ''isols'' of
        Inl e \<Rightarrow> (Inl e, st3)
      | Inr isols_class \<Rightarrow>
     (let st4 = st3\<lparr>isols := filter (\<lambda>x. x \<notin> set bariye) isols_class\<rparr>
      in case named_class E ''finas'' of
           Inl e \<Rightarrow> (Inl e, st4)
         | Inr finas_class \<Rightarrow>
     (let finas = filter (\<lambda>x. x \<notin> set bariye) finas_class;
          st5 = st4\<lparr>isols_finas := list_of_set E (isols st4 @ finas @ bariye)\<rparr>
      in case bin_glyphs_by_metric E medis accuracy1 of
           Inl e \<Rightarrow> (Inl e, st5)
         | Inr binned_medis \<Rightarrow>
     (case bin_glyphs_by_metric E finas accuracy1 of
        Inl e \<Rightarrow> (Inl e, st5)
      | Inr binned_finas \<Rightarrow>
          kerning_routine E binned_finas binned_medis
            (st5\<lparr>kern_at_rise := Map.empty\<rparr>))))))))"

subsection \<open>AtHeight.action\<close>

text \<open>
  The loop body and the inner loop:
  \<^verbatim>\<open>
  word_tail_rise = quantize(sum([x[1] for x in postcontext_plus_rise]), rise_quantization)
  postcontext = list(reversed([x[0] for x in postcontext_plus_rise]))
  if not (word_tail_rise >= height_lower and word_tail_rise <= height_upper):
      continue
  target = [self.isols_finas, self.inits]
  lookups = [[target_routine]] + [None] * (len(target)-1)
  routine.rules.append(Chaining(target, postcontext=postcontext, lookups=lookups))
  \<close>
\<close>

fun at_height_options ::
  "glyph list list \<Rightarrow> addr \<Rightarrow> int \<Rightarrow> int \<Rightarrow> rise_bin list list \<Rightarrow> rule list" where
  "at_height_options target target_routine height_lower height_upper [] = []"
| "at_height_options target target_routine height_lower height_upper
     (postcontext_plus_rise # others) =
     (let word_tail_rise =
            quantize (sum_list (map snd postcontext_plus_rise)) rise_quantization;
          postcontext = rev (map fst postcontext_plus_rise);
          rest = at_height_options target target_routine height_lower height_upper others
      in if \<not> (height_lower \<le> word_tail_rise \<and> word_tail_rise \<le> height_upper) then rest
         else Chaining target postcontext
                ([Some [target_routine]] @ replicate (length target - 1) None) # rest)"

fun at_height_lengths ::
  "glyph list list \<Rightarrow> addr \<Rightarrow> int \<Rightarrow> int \<Rightarrow> rise_bin list \<Rightarrow> rise_bin list \<Rightarrow> nat list
     \<Rightarrow> rule list" where
  "at_height_lengths target target_routine height_lower height_upper binned_finas
     binned_medis [] = []"
| "at_height_lengths target target_routine height_lower height_upper binned_finas
     binned_medis (i # others) =
     at_height_options target target_routine height_lower height_upper
       (all_options binned_finas binned_medis i)
     @ at_height_lengths target target_routine height_lower height_upper binned_finas
         binned_medis others"

text \<open>
  The method. \<open>routineNamed\<close> raises when no routine has the name; the routine it finds
  has that name.
\<close>

definition at_height_action :: "env \<Rightarrow> int \<Rightarrow> int \<Rightarrow> string \<Rightarrow> error + obj list" where
  "at_height_action E height_lower height_upper target_name =
     (case routineNamed E target_name of
        None \<Rightarrow> Inl (ValueError target_name)
      | Some target_routine \<Rightarrow>
     (case named_class E ''inits'' of
        Inl e \<Rightarrow> Inl e
      | Inr inits_class \<Rightarrow>
     (case named_class E ''medis'' of
        Inl e \<Rightarrow> Inl e
      | Inr medis \<Rightarrow>
     (case named_class E ''isols'' of
        Inl e \<Rightarrow> Inl e
      | Inr isols_class \<Rightarrow>
     (case named_class E ''finas'' of
        Inl e \<Rightarrow> Inl e
      | Inr finas \<Rightarrow>
     (case bin_glyphs_by_metric E medis accuracy1 of
        Inl e \<Rightarrow> Inl e
      | Inr binned_medis \<Rightarrow>
     (case bin_glyphs_by_metric E finas accuracy1 of
        Inl e \<Rightarrow> Inl e
      | Inr binned_finas \<Rightarrow>
          Inr [Routine
                 (''At_'' @ str_int height_lower @ ''_'' @ str_int height_upper @ ''_''
                    @ target_name)
                 12
                 (at_height_lengths [isols_class @ finas, inits_class] target_routine
                    height_lower height_upper binned_finas binned_medis word_lengths)
                 None])))))))"

subsection \<open>A small font\<close>

text \<open>
  A font with one glyph in each class, used to run the definitions: the solver answers
  \<open>-15\<close> when the right glyph is \<open>F\<close> and \<open>-5\<close> otherwise, the clustering returns one
  bin for a class, and the medial glyph rises by 100.
\<close>

definition example_env :: env where
  "example_env =
     \<lparr>namedClasses =
        [''inits'' \<mapsto> [''I''], ''medis'' \<mapsto> [''M''], ''bariye'' \<mapsto> [], ''isols'' \<mapsto> [''S''],
         ''finas'' \<mapsto> [''F''], ''all_above_marks'' \<mapsto> [''m'']],
      glyph_lsb = (\<lambda>g. Some 10),
      glyph_rsb = (\<lambda>g. Some 20),
      determine_kern = (\<lambda>g1 g2 td h mt. Inr (if g2 = ''F'' then - 15 else - 5)),
      bin_glyphs_by_metric = (\<lambda>gs n. Inr [(gs, if gs = [''M''] then 100 else 0)]),
      routineNamed = [''dots'' \<mapsto> 7],
      str_float = (\<lambda>q. if q = 2 / 5 then ''0.4'' else ''0.5''),
      list_of_set = remdups\<rparr>"

definition example_state :: state where
  "example_state =
     \<lparr>distance_at_closest = 50, maxtuck = 2 / 5, ink_to_ink_routines = Map.empty,
      kern_at_rise = Map.empty, inits = [''I''], isols = [''S''], isols_finas = [''S'', ''F''],
      shelve = Map.empty, shelve_is_open = True, shelve_opens = 1, solver_calls = [],
      heap = [], routines = []\<rparr>"

text \<open>The same font with a tall final glyph: the bin of \<open>F\<close> rises by 800.\<close>

definition tall_env :: env where
  "tall_env = example_env\<lparr>bin_glyphs_by_metric :=
     (\<lambda>gs n. Inr [(gs, if gs = [''F''] then 800 else 0)])\<rparr>"

text \<open>A font whose class \<open>bariye\<close> shares the glyph \<open>B\<close> with the finals; no glyph rises.\<close>

definition bariye_env :: env where
  "bariye_env = example_env\<lparr>
     namedClasses :=
       [''inits'' \<mapsto> [''I''], ''medis'' \<mapsto> [''M''], ''bariye'' \<mapsto> [''B''], ''isols'' \<mapsto> [''S''],
        ''finas'' \<mapsto> [''F'', ''B''], ''all_above_marks'' \<mapsto> [''m'']],
     bin_glyphs_by_metric := (\<lambda>gs n. Inr [(gs, 0)])\<rparr>"

subsection \<open>The enumeration of AtHeight, as the specification words it\<close>

text \<open>
  The specification describes the contexts of \<open>AtHeight\<close> through the enumeration of
  the main compiler. \<open>enumerated_sequences\<close> is that enumeration: for every length and
  every tuple, the groups and the rise the head of the loop body of
  \<open>NastaliqKerning.action\<close> leaves, negative rises skipped, tall rises clamped and the
  final group dropped at the maximum length. \<open>claimed_at_height_contexts\<close> keeps the
  contexts whose rise lies in the interval. It is compared with \<open>at_height_action\<close>
  below.
\<close>

definition enumerated_sequences ::
  "rise_bin list \<Rightarrow> rise_bin list \<Rightarrow> (glyph list list \<times> int) list" where
  "enumerated_sequences binned_finas binned_medis =
     concat (map (\<lambda>i. concat (map (\<lambda>t.
         case word_tail i t of Inr (Some (word_tail_rise, groups)) \<Rightarrow> [(groups, word_tail_rise)]
         | _ \<Rightarrow> [])
       (all_options binned_finas binned_medis i))) word_lengths)"

definition claimed_at_height_contexts ::
  "int \<Rightarrow> int \<Rightarrow> rise_bin list \<Rightarrow> rise_bin list \<Rightarrow> glyph list list list" where
  "claimed_at_height_contexts lo hi binned_finas binned_medis =
     map fst (filter (\<lambda>(groups, word_tail_rise). lo \<le> word_tail_rise \<and> word_tail_rise \<le> hi)
                (enumerated_sequences binned_finas binned_medis))"

subsection \<open>Side bearings\<close>




subsection \<open>A solver that fails\<close>

text \<open>
  The small font with a solver that raises on every pair, and the state of the plugin
  before a run: no class read yet, the store not opened.
\<close>

definition failing_env :: env where
  "failing_env = example_env\<lparr>determine_kern :=
     (\<lambda>g1 g2 td h mt. Inl (SolverError ''no solution''))\<rparr>"

definition fresh_state :: state where
  "fresh_state = example_state\<lparr>inits := [], isols := [], isols_finas := [],
     shelve_is_open := False, shelve_opens := 0\<rparr>"

section \<open>Properties\<close>

subsection \<open>quantize on integers\<close>

lemma quantize_int:
  assumes "0 < d"
  shows "quantize n d =
     (if 2 * (n mod d) < d then d * (n div d)
      else if d < 2 * (n mod d) then d * (n div d + 1)
      else if even (n div d) then d * (n div d) else d * (n div d + 1))"
proof -
  have f: "\<lfloor>(of_int n :: rat) / of_int d\<rfloor> = n div d"
    by (simp add: floor_divide_of_int_eq)
  have "(of_int n :: rat) = of_int (n div d) * of_int d + of_int (n mod d)"
    by (metis of_int_add of_int_mult div_mult_mod_eq)
  then have d: "(of_int n :: rat) / of_int d - of_int (n div d) = of_int (n mod d) / of_int d"
    using assms by (simp add: field_simps)
  have lt: "(of_int (n mod d) :: rat) / of_int d < 1 / 2 \<longleftrightarrow> 2 * (n mod d) < d"
  proof -
    have "(of_int (n mod d) :: rat) / of_int d < 1 / 2 \<longleftrightarrow> (of_int (2 * (n mod d)) :: rat) < of_int d"
      using assms by (simp add: field_simps)
    then show ?thesis by (simp only: of_int_less_iff)
  qed
  have gt: "1 / 2 < (of_int (n mod d) :: rat) / of_int d \<longleftrightarrow> d < 2 * (n mod d)"
  proof -
    have "1 / 2 < (of_int (n mod d) :: rat) / of_int d \<longleftrightarrow> (of_int d :: rat) < of_int (2 * (n mod d))"
      using assms by (simp add: field_simps)
    then show ?thesis by (simp only: of_int_less_iff)
  qed
  show ?thesis
    unfolding quantize_def py_round_def Let_def f d lt gt by simp
qed

subsection \<open>The printed form of an integer\<close>

lemma digit_cases:
  "d < 10 \<Longrightarrow> d = 0 \<or> d = 1 \<or> d = 2 \<or> d = 3 \<or> d = 4 \<or> d = 5 \<or> d = 6 \<or> d = 7 \<or> d = 8 \<or> d = (9::nat)"
  by arith

lemma digit_char_in: "d < 10 \<Longrightarrow> digit_char d \<in> set ''0123456789''"
  by (drule digit_cases) (auto simp: digit_char_def)

lemma digit_char_inj: "d < 10 \<Longrightarrow> d' < 10 \<Longrightarrow> digit_char d = digit_char d' \<Longrightarrow> d = d'"
  by (drule digit_cases, drule digit_cases) (auto simp: digit_char_def)

lemma digit_char_not_slash: "d < 10 \<Longrightarrow> digit_char d \<noteq> CHR ''/''"
  using digit_char_in [of d] by auto

lemma digit_char_not_minus: "d < 10 \<Longrightarrow> digit_char d \<noteq> CHR ''-''"
  using digit_char_in [of d] by auto

lemma str_nat_chars: "c \<in> set (str_nat n) \<Longrightarrow> \<exists>d<10. c = digit_char d"
proof (induction n rule: str_nat.induct)
  case (1 n)
  show ?case
  proof (cases "n < 10")
    case True
    with "1.prems" show ?thesis by (auto simp: str_nat.simps [of n])
  next
    case False
    with "1.prems" have "c \<in> set (str_nat (n div 10)) \<or> c = digit_char (n mod 10)"
      by (auto simp: str_nat.simps [of n])
    then show ?thesis
    proof
      assume "c \<in> set (str_nat (n div 10))"
      with False "1.IH" show ?thesis by simp
    next
      assume "c = digit_char (n mod 10)"
      moreover have "n mod 10 < 10" by simp
      ultimately show ?thesis by blast
    qed
  qed
qed

lemma str_nat_not_Nil: "str_nat n \<noteq> []"
  by (subst str_nat.simps) simp

lemma str_nat_small: "n < 10 \<Longrightarrow> str_nat n = [digit_char n]"
  by (subst str_nat.simps) simp

lemma str_nat_large: "\<not> n < 10 \<Longrightarrow> str_nat n = str_nat (n div 10) @ [digit_char (n mod 10)]"
  by (subst str_nat.simps) simp

lemma str_nat_length1: "length (str_nat n) = Suc 0 \<longleftrightarrow> n < 10"
proof
  assume l: "length (str_nat n) = Suc 0"
  show "n < 10"
  proof (rule ccontr)
    assume "\<not> n < 10"
    then have "length (str_nat n) = Suc (length (str_nat (n div 10)))"
      by (simp add: str_nat_large)
    with l str_nat_not_Nil [of "n div 10"] show False by simp
  qed
next
  assume "n < 10"
  then show "length (str_nat n) = Suc 0" by (simp add: str_nat_small)
qed

lemma str_nat_inj: "str_nat n = str_nat m \<Longrightarrow> n = m"
proof (induction n arbitrary: m rule: str_nat.induct)
  case (1 n)
  show ?case
  proof (cases "n < 10")
    case True
    then have "length (str_nat n) = Suc 0" by (simp add: str_nat_length1)
    with "1.prems" have m: "m < 10" by (simp add: str_nat_length1)
    from "1.prems" True m have "digit_char n = digit_char m"
      by (simp add: str_nat_small)
    with True m show ?thesis by (rule digit_char_inj)
  next
    case False
    then have "length (str_nat n) \<noteq> Suc 0" by (simp add: str_nat_length1)
    with "1.prems" have m: "\<not> m < 10" by (simp add: str_nat_length1)
    from "1.prems" False m
    have "str_nat (n div 10) @ [digit_char (n mod 10)] = str_nat (m div 10) @ [digit_char (m mod 10)]"
      by (simp add: str_nat_large)
    then have a: "str_nat (n div 10) = str_nat (m div 10)"
      and b: "digit_char (n mod 10) = digit_char (m mod 10)" by simp_all
    from a False "1.IH" have "n div 10 = m div 10" by simp
    moreover from b have "n mod 10 = m mod 10" by (intro digit_char_inj) simp_all
    ultimately show ?thesis by (metis div_mult_mod_eq)
  qed
qed

lemma str_nat_no_slash: "CHR ''/'' \<notin> set (str_nat n)"
  by (metis str_nat_chars digit_char_not_slash)

lemma str_int_no_slash: "CHR ''/'' \<notin> set (str_int i)"
  by (simp add: str_int_def str_nat_no_slash)

lemma str_nat_no_minus: "CHR ''-'' \<notin> set (str_nat n)"
  by (metis str_nat_chars digit_char_not_minus)

lemma str_int_inj: "str_int i = str_int j \<Longrightarrow> i = j"
proof -
  assume eq: "str_int i = str_int j"
  have hd: "\<And>n. hd (str_nat n) \<noteq> CHR ''-''"
    using str_nat_no_minus str_nat_not_Nil by (metis hd_in_set)
  show ?thesis
  proof (cases "i < 0"; cases "j < 0")
    assume "i < 0" "j < 0"
    with eq have "str_nat (nat (- i)) = str_nat (nat (- j))" by (simp add: str_int_def)
    then have "nat (- i) = nat (- j)" by (rule str_nat_inj)
    with \<open>i < 0\<close> \<open>j < 0\<close> show ?thesis by simp
  next
    assume "i < 0" "\<not> j < 0"
    with eq have "CHR ''-'' # str_nat (nat (- i)) = str_nat (nat j)" by (simp add: str_int_def)
    then have "hd (str_nat (nat j)) = CHR ''-''" by (metis list.sel(1))
    with hd show ?thesis by simp
  next
    assume "\<not> i < 0" "j < 0"
    with eq have "CHR ''-'' # str_nat (nat (- j)) = str_nat (nat i)" by (simp add: str_int_def)
    then have "hd (str_nat (nat i)) = CHR ''-''" by (metis list.sel(1))
    with hd show ?thesis by simp
  next
    assume "\<not> i < 0" "\<not> j < 0"
    with eq have "str_nat (nat i) = str_nat (nat j)" by (simp add: str_int_def)
    then have "nat i = nat j" by (rule str_nat_inj)
    with \<open>\<not> i < 0\<close> \<open>\<not> j < 0\<close> show ?thesis by simp
  qed
qed

lemma field_split:
  assumes "c \<notin> set a" "c \<notin> set a'" "a @ c # x = a' @ c # y"
  shows "a = a' \<and> x = y"
proof -
  have "takeWhile (\<lambda>z. z \<noteq> c) (a @ c # x) = a" using assms(1) by (subst takeWhile_append2) auto
  moreover have "takeWhile (\<lambda>z. z \<noteq> c) (a' @ c # y) = a'" using assms(2) by (subst takeWhile_append2) auto
  ultimately have "a = a'" using assms(3) by simp
  with assms(3) show ?thesis by simp
qed

lemma cache_key_inj:
  assumes "CHR ''/'' \<notin> set g1" "CHR ''/'' \<notin> set g2" "CHR ''/'' \<notin> set g1'" "CHR ''/'' \<notin> set g2'"
    and "cache_key E g1 g2 td h mt = cache_key E g1' g2' td' h' mt'"
  shows "g1 = g1' \<and> g2 = g2' \<and> td = td' \<and> h = h' \<and> str_float E mt = str_float E mt'"
proof -
  from assms(5) have e1: "g1 @ CHR ''/'' # (g2 @ CHR ''/'' # (str_int td @ CHR ''/'' # (str_int h @ CHR ''/'' # str_float E mt)))
     = g1' @ CHR ''/'' # (g2' @ CHR ''/'' # (str_int td' @ CHR ''/'' # (str_int h' @ CHR ''/'' # str_float E mt')))"
    by (simp add: cache_key_def)
  from field_split [OF assms(1) assms(3) e1] have a: "g1 = g1'"
    and e2: "g2 @ CHR ''/'' # (str_int td @ CHR ''/'' # (str_int h @ CHR ''/'' # str_float E mt))
     = g2' @ CHR ''/'' # (str_int td' @ CHR ''/'' # (str_int h' @ CHR ''/'' # str_float E mt'))"
    by simp_all
  from field_split [OF assms(2) assms(4) e2] have b: "g2 = g2'"
    and e3: "str_int td @ CHR ''/'' # (str_int h @ CHR ''/'' # str_float E mt)
     = str_int td' @ CHR ''/'' # (str_int h' @ CHR ''/'' # str_float E mt')"
    by simp_all
  from field_split [OF str_int_no_slash str_int_no_slash e3] have c: "str_int td = str_int td'"
    and e4: "str_int h @ CHR ''/'' # str_float E mt = str_int h' @ CHR ''/'' # str_float E mt'"
    by simp_all
  from field_split [OF str_int_no_slash str_int_no_slash e4] have d: "str_int h = str_int h'"
    and e: "str_float E mt = str_float E mt'"
    by simp_all
  from a b c d e show ?thesis by (simp add: str_int_inj)
qed

subsection \<open>The kern cache\<close>

lemma determine_kern_cached_shelve_other:
  "k \<noteq> cache_key E g1 g2 td h mt \<Longrightarrow>
   shelve (snd (determine_kern_cached E g1 g2 td h mt st)) k = shelve st k"
  by (simp add: determine_kern_cached_def Let_def split: option.splits sum.splits)

text \<open>
  C1. With the shelf open, a call of \<open>determine_kern_cached\<close> whose key is stored returns
  the stored value and changes nothing; a call whose key is not stored calls the solver
  once, stores its result under the key and returns it; and when a call returns, a second
  call with the same arguments returns the same value and leaves the state as it is, so
  that the two calls together call the solver at most once.
\<close>

theorem determine_kern_cached_twice:
  assumes "shelve_is_open st"
  shows "(\<forall>v. shelve st (cache_key E g1 g2 td h mt) = Some v \<longrightarrow>
            determine_kern_cached E g1 g2 td h mt st = (Inr v, st))
       \<and> (\<forall>v. shelve st (cache_key E g1 g2 td h mt) = None \<and>
              determine_kern E g1 g2 td h mt = Inr v \<longrightarrow>
            determine_kern_cached E g1 g2 td h mt st =
              (Inr v, st\<lparr>solver_calls := solver_calls st @ [(g1, g2, td, h, mt)],
                         shelve := (shelve st)(cache_key E g1 g2 td h mt \<mapsto> v)\<rparr>))
       \<and> (\<forall>v1 st1 r2 st2.
              determine_kern_cached E g1 g2 td h mt st = (Inr v1, st1) \<and>
              determine_kern_cached E g1 g2 td h mt st1 = (r2, st2) \<longrightarrow>
            r2 = Inr v1 \<and> st2 = st1 \<and>
            length (solver_calls st2) \<le> Suc (length (solver_calls st)))"
  using assms
  by (auto simp: determine_kern_cached_def Let_def split: option.splits sum.splits)

theorem determine_kern_cached_twice_witness:
  "shelve_is_open example_state
   \<and> determine_kern_cached example_env ''I'' ''F'' 50 0 (2 / 5) example_state =
       (Inr (- 15),
        example_state\<lparr>solver_calls := [(''I'', ''F'', 50, 0, 2 / 5)],
                       shelve := [''I/F/50/0/0.4'' \<mapsto> - 15]\<rparr>)
   \<and> determine_kern_cached example_env ''I'' ''F'' 50 0 (2 / 5)
        (example_state\<lparr>solver_calls := [(''I'', ''F'', 50, 0, 2 / 5)],
                        shelve := [''I/F/50/0/0.4'' \<mapsto> - 15]\<rparr>) =
       (Inr (- 15),
        example_state\<lparr>solver_calls := [(''I'', ''F'', 50, 0, 2 / 5)],
                       shelve := [''I/F/50/0/0.4'' \<mapsto> - 15]\<rparr>)"
proof -
  let ?st1 = "example_state\<lparr>solver_calls := [(''I'', ''F'', 50, 0, 2 / 5)],
                shelve := [''I/F/50/0/0.4'' \<mapsto> - 15]\<rparr>"
  have k: "cache_key example_env ''I'' ''F'' 50 0 (2 / 5) = ''I/F/50/0/0.4''"
    by (simp add: cache_key_def example_env_def str_int_def str_nat.simps digit_char_def)
  have o: "shelve_is_open example_state" by (simp add: example_state_def)
  have o1: "shelve_is_open ?st1" by (simp add: example_state_def)
  have miss: "shelve example_state ''I/F/50/0/0.4'' = None
      \<and> determine_kern example_env ''I'' ''F'' 50 0 (2 / 5) = Inr (- 15)"
    by (simp add: example_state_def example_env_def)
  have st1: "example_state\<lparr>solver_calls := solver_calls example_state @ [(''I'', ''F'', 50, 0, 2 / 5)],
      shelve := (shelve example_state)(''I/F/50/0/0.4'' \<mapsto> - 15)\<rparr> = ?st1"
    by (simp add: example_state_def)
  from determine_kern_cached_twice [OF o, of example_env "''I''" "''F''" 50 0 "2 / 5"] miss
  have first: "determine_kern_cached example_env ''I'' ''F'' 50 0 (2 / 5) example_state
      = (Inr (- 15), ?st1)"
    unfolding k st1 [symmetric] by blast
  have hit: "shelve ?st1 ''I/F/50/0/0.4'' = Some (- 15)" by simp
  from determine_kern_cached_twice [OF o1, of example_env "''I''" "''F''" 50 0 "2 / 5"] hit
  have second: "determine_kern_cached example_env ''I'' ''F'' 50 0 (2 / 5) ?st1
      = (Inr (- 15), ?st1)"
    unfolding k by blast
  from o first second show ?thesis by simp
qed

lemma determine_kern_cached_result:
  "shelve_is_open st \<Longrightarrow>
   fst (determine_kern_cached E g1 g2 td h mt st) =
     (case shelve st (cache_key E g1 g2 td h mt) of
        Some v \<Rightarrow> Inr v
      | None \<Rightarrow> determine_kern E g1 g2 td h mt)"
  by (simp add: determine_kern_cached_def Let_def split: option.splits sum.splits)

lemma determine_kern_cached_open:
  "shelve_is_open (snd (determine_kern_cached E g1 g2 td h mt st)) = shelve_is_open st"
  by (simp add: determine_kern_cached_def Let_def split: option.splits sum.splits)

lemma determine_kern_cached_closed:
  "\<not> shelve_is_open st \<Longrightarrow>
   fst (determine_kern_cached E g1 g2 td h mt st) = Inl closed_shelf"
  by (simp add: determine_kern_cached_def Let_def)

text \<open>
  C10. The key joins the printed forms of the five arguments with \<open>/\<close>. When no glyph
  name contains \<open>/\<close> and the two tolerances are told apart by their printed forms, two
  different argument tuples have different keys. Then a call for one tuple leaves the
  entry of the other as it was, and does not change what a call for the other returns:
  with the shelf open that is the value stored under the other tuple's own key, or the
  solver's answer for the other tuple when nothing is stored under it. So a call never
  returns a value stored for a different tuple. Without the condition two tuples can
  share a key: the glyph names \<open>a/b\<close>, \<open>c\<close> and \<open>a\<close>, \<open>b/c\<close> do.
\<close>

theorem cache_key_separates_tuples:
  assumes "CHR ''/'' \<notin> set g1" and "CHR ''/'' \<notin> set g2"
    and "CHR ''/'' \<notin> set g1'" and "CHR ''/'' \<notin> set g2'"
    and "str_float E mt = str_float E mt' \<longrightarrow> mt = mt'"
    and "(g1, g2, td, h, mt) \<noteq> (g1', g2', td', h', mt')"
  shows "cache_key E g1 g2 td h mt \<noteq> cache_key E g1' g2' td' h' mt'
       \<and> shelve (snd (determine_kern_cached E g1' g2' td' h' mt' st))
             (cache_key E g1 g2 td h mt)
           = shelve st (cache_key E g1 g2 td h mt)
       \<and> fst (determine_kern_cached E g1 g2 td h mt
                (snd (determine_kern_cached E g1' g2' td' h' mt' st)))
           = fst (determine_kern_cached E g1 g2 td h mt st)
       \<and> (shelve_is_open st \<longrightarrow>
            fst (determine_kern_cached E g1 g2 td h mt
                  (snd (determine_kern_cached E g1' g2' td' h' mt' st)))
            = (case shelve st (cache_key E g1 g2 td h mt) of
                 Some v \<Rightarrow> Inr v
               | None \<Rightarrow> determine_kern E g1 g2 td h mt))
       \<and> cache_key E ''a/b'' ''c'' td h mt = cache_key E ''a'' ''b/c'' td h mt"
proof -
  let ?st1 = "snd (determine_kern_cached E g1' g2' td' h' mt' st)"
  have ne: "cache_key E g1 g2 td h mt \<noteq> cache_key E g1' g2' td' h' mt'"
  proof
    assume "cache_key E g1 g2 td h mt = cache_key E g1' g2' td' h' mt'"
    from cache_key_inj [OF assms(1) assms(2) assms(3) assms(4) this] assms(5) assms(6)
    show False by simp
  qed
  from ne have same: "shelve ?st1 (cache_key E g1 g2 td h mt)
      = shelve st (cache_key E g1 g2 td h mt)"
    by (rule determine_kern_cached_shelve_other)
  have op: "shelve_is_open ?st1 = shelve_is_open st"
    by (rule determine_kern_cached_open)
  have ret: "fst (determine_kern_cached E g1 g2 td h mt ?st1)
      = fst (determine_kern_cached E g1 g2 td h mt st)"
  proof (cases "shelve_is_open st")
    case True
    with op have "shelve_is_open ?st1" by simp
    then show ?thesis
      using True by (simp add: determine_kern_cached_result same)
  next
    case False
    with op have "\<not> shelve_is_open ?st1" by simp
    then show ?thesis
      using False by (simp add: determine_kern_cached_closed)
  qed
  have val: "shelve_is_open st \<longrightarrow>
      fst (determine_kern_cached E g1 g2 td h mt ?st1)
      = (case shelve st (cache_key E g1 g2 td h mt) of
           Some v \<Rightarrow> Inr v
         | None \<Rightarrow> determine_kern E g1 g2 td h mt)"
    using ret by (simp add: determine_kern_cached_result)
  have col: "cache_key E ''a/b'' ''c'' td h mt = cache_key E ''a'' ''b/c'' td h mt"
    by (simp add: cache_key_def)
  from ne same ret val col show ?thesis by blast
qed

text \<open>
  With \<open>-99\<close> stored for the tuple of \<open>F\<close>, \<open>I\<close>, a call for \<open>F\<close>, \<open>I\<close> returns it, and a
  call for \<open>I\<close>, \<open>F\<close> after it returns the solver's \<open>-15\<close>.
\<close>

theorem cache_key_separates_tuples_witness:
  "CHR ''/'' \<notin> set ''I'' \<and> CHR ''/'' \<notin> set ''F''
   \<and> (''I'', ''F'', 50 :: int, 0 :: int, 2 / 5 :: rat) \<noteq> (''F'', ''I'', 50, 0, 2 / 5)
   \<and> cache_key example_env ''I'' ''F'' 50 0 (2 / 5) = ''I/F/50/0/0.4''
   \<and> cache_key example_env ''F'' ''I'' 50 0 (2 / 5) = ''F/I/50/0/0.4''
   \<and> determine_kern_cached example_env ''F'' ''I'' 50 0 (2 / 5)
        (example_state\<lparr>shelve := [''F/I/50/0/0.4'' \<mapsto> - 99]\<rparr>)
       = (Inr (- 99), example_state\<lparr>shelve := [''F/I/50/0/0.4'' \<mapsto> - 99]\<rparr>)
   \<and> fst (determine_kern_cached example_env ''I'' ''F'' 50 0 (2 / 5)
         (snd (determine_kern_cached example_env ''F'' ''I'' 50 0 (2 / 5)
                (example_state\<lparr>shelve := [''F/I/50/0/0.4'' \<mapsto> - 99]\<rparr>))))
       = Inr (- 15)
   \<and> cache_key example_env ''a/b'' ''c'' 50 0 (2 / 5)
       = cache_key example_env ''a'' ''b/c'' 50 0 (2 / 5)"
proof -
  let ?st = "example_state\<lparr>shelve := [''F/I/50/0/0.4'' \<mapsto> - 99]\<rparr>"
  have a: "CHR ''/'' \<notin> set ''I''" and b: "CHR ''/'' \<notin> set ''F''"
    by simp_all
  have f: "str_float example_env (2 / 5) = str_float example_env (2 / 5)
      \<longrightarrow> (2 / 5 :: rat) = 2 / 5"
    by simp
  have d: "(''I'', ''F'', 50 :: int, 0 :: int, 2 / 5 :: rat) \<noteq> (''F'', ''I'', 50, 0, 2 / 5)"
    by simp
  have k1: "cache_key example_env ''I'' ''F'' 50 0 (2 / 5) = ''I/F/50/0/0.4''"
    by (simp add: cache_key_def example_env_def str_int_def str_nat.simps digit_char_def)
  have k2: "cache_key example_env ''F'' ''I'' 50 0 (2 / 5) = ''F/I/50/0/0.4''"
    by (simp add: cache_key_def example_env_def str_int_def str_nat.simps digit_char_def)
  have o: "shelve_is_open ?st" by (simp add: example_state_def)
  have hit: "determine_kern_cached example_env ''F'' ''I'' 50 0 (2 / 5) ?st = (Inr (- 99), ?st)"
    using o by (simp add: determine_kern_cached_def k2)
  have own: "(case shelve ?st ''I/F/50/0/0.4'' of Some v \<Rightarrow> Inr v
      | None \<Rightarrow> determine_kern example_env ''I'' ''F'' 50 0 (2 / 5)) = Inr (- 15)"
    by (simp add: example_env_def)
  from cache_key_separates_tuples [OF a b b a f d, of ?st]
  have "shelve_is_open ?st \<longrightarrow>
      fst (determine_kern_cached example_env ''I'' ''F'' 50 0 (2 / 5)
         (snd (determine_kern_cached example_env ''F'' ''I'' 50 0 (2 / 5) ?st)))
      = (case shelve ?st (cache_key example_env ''I'' ''F'' 50 0 (2 / 5)) of Some v \<Rightarrow> Inr v
         | None \<Rightarrow> determine_kern example_env ''I'' ''F'' 50 0 (2 / 5))"
    by blast
  with o have ret: "fst (determine_kern_cached example_env ''I'' ''F'' 50 0 (2 / 5)
         (snd (determine_kern_cached example_env ''F'' ''I'' 50 0 (2 / 5) ?st))) = Inr (- 15)"
    unfolding k1 own by blast
  from cache_key_separates_tuples [OF a b b a f d, of ?st]
  have col: "cache_key example_env ''a/b'' ''c'' 50 0 (2 / 5)
       = cache_key example_env ''a'' ''b/c'' 50 0 (2 / 5)"
    by blast
  from a b d k1 k2 hit ret col show ?thesis by simp
qed

subsection \<open>The loop body of NastaliqKerning.action\<close>

lemma quantize_100_idem: "quantize (quantize x 100) 100 = quantize x 100"
  by (simp add: quantize_int)

lemma rev_map_fst_split:
  "t \<noteq> [] \<Longrightarrow> rev (map fst t) = rev (map fst (tl t)) @ [fst (hd t)]"
  by (cases t) simp_all

lemma all_options_single:
  "all_options [f] [m] 5 = [[f, m, m, m, m, m]]"
  "all_options [f] [m] 4 = [[f, m, m, m, m]]"
  "all_options [f] [m] 3 = [[f, m, m, m]]"
  "all_options [f] [m] 2 = [[f, m, m]]"
  "all_options [f] [m] (Suc 0) = [[f, m]]"
  "all_options [f] [m] 0 = [[f]]"
  by (simp_all add: all_options_def eval_nat_numeral)

lemma word_lengths_eq: "word_lengths = [5, 4, 3, 2, 1, 0]"
  by (simp add: word_lengths_def maximum_word_length_def upt_rec)

text \<open>
  C4. A tuple whose quantized rise is at least 600 is given the rise 600: the table
  asked for is the table for 600, whatever the sum was. Its context is the reversed list
  of the groups of the tuple; the group of the final glyph, which is the last of them, is
  left out exactly when \<open>i\<close> is 5. A sum of 850 is quantized to 800 and recorded as 600.
\<close>

theorem tall_sequence_clamped:
  assumes "maximum_rise \<le> quantize (sum_list (map snd t)) rise_quantization"
    and "t \<noteq> []"
  shows "word_tail i t =
           Inr (Some (600,
                  if i = 5 then rev (map fst (tl t))
                  else rev (map fst (tl t)) @ [fst (hd t)]))
       \<and> sequence_rules E i t st =
           (case generate_kern_table_for_rise E 600 st of
              (Inl e, st1) \<Rightarrow> (Inl e, st1)
            | (Inr kern_table, st1) \<Rightarrow>
                (chain_rules E st1 i 600
                   (if i = 5 then rev (map fst (tl t))
                    else rev (map fst (tl t)) @ [fst (hd t)])
                   kern_table, st1))"
proof -
  from assms(1) have nonneg: "\<not> quantize (sum_list (map snd t)) rise_quantization < 0"
    by (simp add: maximum_rise_def)
  from assms(2) have ne: "rev (map fst t) \<noteq> []" by simp
  have wt: "word_tail i t =
      Inr (Some (600, if i = 5 then rev (map fst (tl t))
                      else rev (map fst (tl t)) @ [fst (hd t)]))"
    using assms(1) nonneg ne rev_map_fst_split [OF assms(2)]
    by (simp add: word_tail_def Let_def maximum_rise_def maximum_word_length_def)
  show ?thesis
    by (simp add: wt sequence_rules_def)
qed

theorem tall_sequence_clamped_witness:
  "maximum_rise \<le> quantize (sum_list (map snd
       [([''F''], 850), ([''M''], 0), ([''M''], 0), ([''M''], 0), ([''M''], 0), ([''M''], 0)]))
       rise_quantization
   \<and> quantize 850 rise_quantization = 800
   \<and> word_tail 5 [([''F''], 850), ([''M''], 0), ([''M''], 0), ([''M''], 0), ([''M''], 0), ([''M''], 0)]
       = Inr (Some (600, [[''M''], [''M''], [''M''], [''M''], [''M'']]))
   \<and> word_tail 4 [([''F''], 850), ([''M''], 0), ([''M''], 0), ([''M''], 0), ([''M''], 0)]
       = Inr (Some (600, [[''M''], [''M''], [''M''], [''M''], [''F'']]))"
proof -
  have a: "maximum_rise \<le> quantize (sum_list (map snd
       [([''F''], 850), ([''M''], 0), ([''M''], 0), ([''M''], 0), ([''M''], 0), ([''M''], 0)]))
       rise_quantization"
    by (simp add: quantize_int maximum_rise_def rise_quantization_def)
  have b: "maximum_rise \<le> quantize (sum_list (map snd
       [([''F''], 850), ([''M''], 0), ([''M''], 0), ([''M''], 0), ([''M''], 0)]))
       rise_quantization"
    by (simp add: quantize_int maximum_rise_def rise_quantization_def)
  have c: "quantize 850 rise_quantization = 800"
    by (simp add: quantize_int rise_quantization_def)
  from tall_sequence_clamped [OF a, of 5] tall_sequence_clamped [OF b, of 4] a c
  show ?thesis by simp
qed

lemma set_last_butlast: "butlast (set_last xs x) = butlast xs"
  by (simp add: set_last_def)

lemma set_last_twice: "set_last (set_last xs x) y = set_last xs y"
  by (simp add: set_last_def)

lemma set_last_length: "xs \<noteq> [] \<Longrightarrow> length (set_last xs x) = length xs"
  by (simp add: set_last_def)

text \<open>
  C7, as the code has it. When the innermost group of the context holds a blocker, the
  rules of the sequence are: the rule whose innermost group is the group without the
  blockers; when the context has more than one group, the rule whose innermost group is
  the list of blockers; and, when the rise is at least 400 and \<open>i\<close> is above 4, the rule
  of the tall sequences, whose innermost group is \<open>BARI_YEf1\<close>. So a context with a
  blocker and more than one group gives two rules, and three at \<open>i = 5\<close> and a rise of
  400 or more.
\<close>

theorem blocker_split:
  assumes "groups \<noteq> []"
    and "\<exists>blocker \<in> set blockers. blocker \<in> set (last groups)"
  shows "chain_rules E st i word_tail_rise groups kern_table =
     Inr ([Chaining [isols_finas st]
             (inits st # butlast groups @
                [list_of_set E (filter (\<lambda>g. g \<notin> set blockers) (last groups))])
             [Some [kern_table]]]
          @ (if 1 < length groups then
               [Chaining [isols_finas st] (inits st # butlast groups @ [blockers])
                  [Some [kern_table]]]
             else [])
          @ (if 400 \<le> word_tail_rise \<and> 4 < i then
               [Chaining [isols_finas st] (inits st # butlast groups @ [[''BARI_YEf1'']])
                  [Some [kern_table]]]
             else []))"
  using assms
  by (simp add: chain_rules_def Let_def set_last_twice set_last_length)
     (simp add: set_last_def)

theorem blocker_split_witness:
  "[[''M''], [''AINf1'', ''X'', ''Y'']] \<noteq> []
   \<and> (\<exists>blocker \<in> set blockers. blocker \<in> set (last [[''M''], [''AINf1'', ''X'', ''Y'']]))
   \<and> chain_rules example_env example_state 1 0 [[''M''], [''AINf1'', ''X'', ''Y'']] 3 =
       Inr [Chaining [[''S'', ''F'']] [[''I''], [''M''], [''X'', ''Y'']] [Some [3]],
            Chaining [[''S'', ''F'']] [[''I''], [''M''], [''AINf1'', ''JIMf1'']] [Some [3]]]"
proof -
  have a: "[[''M''], [''AINf1'', ''X'', ''Y'']] \<noteq> []" by simp
  have b: "\<exists>blocker \<in> set blockers. blocker \<in> set (last [[''M''], [''AINf1'', ''X'', ''Y'']])"
    by (simp add: blockers_def)
  from blocker_split [OF a b, of example_env example_state 1 0 3] a b
  show ?thesis by (simp add: example_env_def example_state_def blockers_def)
qed

text \<open>
  The claim of exactly two rules fails for the tuple of length 6 whose final group holds
  \<open>AINf1\<close> and whose rise is 400: the head of the loop body keeps all six groups, and the
  body emits three rules.
\<close>

theorem blocker_split_counterexample:
  "word_tail 5 [([''AINf1'', ''X'', ''Y''], 400), ([''M''], 0), ([''M''], 0), ([''M''], 0),
                ([''M''], 0), ([''M''], 0)]
     = Inr (Some (400, [[''M''], [''M''], [''M''], [''M''], [''M''], [''AINf1'', ''X'', ''Y'']]))
   \<and> (\<exists>blocker \<in> set blockers.
         blocker \<in> set (last [[''M''], [''M''], [''M''], [''M''], [''M''], [''AINf1'', ''X'', ''Y'']]))
   \<and> 1 < length [[''M''], [''M''], [''M''], [''M''], [''M''], [''AINf1'', ''X'', ''Y'']]
   \<and> chain_rules example_env example_state 5 400
        [[''M''], [''M''], [''M''], [''M''], [''M''], [''AINf1'', ''X'', ''Y'']] 3 =
       Inr [Chaining [[''S'', ''F'']]
              [[''I''], [''M''], [''M''], [''M''], [''M''], [''M''], [''X'', ''Y'']] [Some [3]],
            Chaining [[''S'', ''F'']]
              [[''I''], [''M''], [''M''], [''M''], [''M''], [''M''], [''AINf1'', ''JIMf1'']]
              [Some [3]],
            Chaining [[''S'', ''F'']]
              [[''I''], [''M''], [''M''], [''M''], [''M''], [''M''], [''BARI_YEf1'']] [Some [3]]]"
  by (simp add: word_tail_def quantize_int rise_quantization_def maximum_rise_def
      maximum_word_length_def chain_rules_def Let_def set_last_def blockers_def
      example_env_def example_state_def)

subsection \<open>AtHeight\<close>

lemma at_height_options_eq:
  "at_height_options [a, b] target_routine lo hi ts =
     concat (map (\<lambda>t.
        if lo \<le> quantize (sum_list (map snd t)) rise_quantization
           \<and> quantize (sum_list (map snd t)) rise_quantization \<le> hi
        then [Chaining [a, b] (rev (map fst t)) [Some [target_routine], None]]
        else []) ts)"
  by (induction ts) (simp_all add: Let_def)

lemma at_height_lengths_eq:
  "at_height_lengths target target_routine lo hi binned_finas binned_medis lens =
     concat (map (\<lambda>i. at_height_options target target_routine lo hi
                         (all_options binned_finas binned_medis i)) lens)"
  by (induction lens) simp_all

lemma action_loops:
  assumes "namedClasses E ''inits'' = Some inits_class"
    and "namedClasses E ''medis'' = Some medis"
    and "namedClasses E ''bariye'' = Some bariye"
    and "namedClasses E ''isols'' = Some isols_class"
    and "namedClasses E ''finas'' = Some finas"
    and "bin_glyphs_by_metric E medis accuracy1 = Inr binned_medis"
    and "bin_glyphs_by_metric E (filter (\<lambda>x. x \<notin> set bariye) finas) accuracy1 = Inr binned_finas"
  shows "action E units percentage st =
     kerning_routine E binned_finas binned_medis
       (st\<lparr>distance_at_closest := units,
           maxtuck := of_int percentage / 100,
           ink_to_ink_routines := Map.empty,
           shelve_is_open := True,
           shelve_opens := Suc (shelve_opens st),
           inits := inits_class,
           isols := filter (\<lambda>x. x \<notin> set bariye) isols_class,
           isols_finas := list_of_set E
             (filter (\<lambda>x. x \<notin> set bariye) isols_class
              @ filter (\<lambda>x. x \<notin> set bariye) finas @ bariye),
           kern_at_rise := Map.empty\<rparr>)"
  using assms by (simp add: action_def named_class_def Let_def)

text \<open>
  C8, as the code has it. \<open>AtHeight\<close> walks, for the lengths from 5 down to 0, the
  tuples of one bin of the finals and \<open>i\<close> bins of the medials, the classes binned as the
  feature file names them. It emits a rule exactly for the tuples whose quantized rise
  lies in the closed interval. The rise is the quantized sum itself: it is not clamped,
  and a negative rise is not skipped. The context of the rule is the reversed list of
  all the groups of the tuple, the group of the final glyph included, and its lookup is
  the named routine. The main compiler runs its loops over other bins of the finals:
  those of the finals that are not in \<open>bariye\<close>.
\<close>

theorem at_height_rules:
  assumes "routineNamed E target_name = Some target_routine"
    and "namedClasses E ''inits'' = Some inits_class"
    and "namedClasses E ''medis'' = Some medis"
    and "namedClasses E ''isols'' = Some isols_class"
    and "namedClasses E ''finas'' = Some finas"
    and "bin_glyphs_by_metric E medis accuracy1 = Inr binned_medis"
    and "bin_glyphs_by_metric E finas accuracy1 = Inr binned_finas"
  shows "at_height_action E lo hi target_name =
     Inr [Routine (''At_'' @ str_int lo @ ''_'' @ str_int hi @ ''_'' @ target_name) 12
            (concat (map (\<lambda>i. concat (map (\<lambda>t.
                if lo \<le> quantize (sum_list (map snd t)) rise_quantization
                   \<and> quantize (sum_list (map snd t)) rise_quantization \<le> hi
                then [Chaining [isols_class @ finas, inits_class] (rev (map fst t))
                        [Some [target_routine], None]]
                else [])
              (all_options binned_finas binned_medis i))) [5, 4, 3, 2, 1, 0]))
            None]
     \<and> (\<forall>bariye kerning_finas.
           namedClasses E ''bariye'' = Some bariye \<and>
           bin_glyphs_by_metric E (filter (\<lambda>x. x \<notin> set bariye) finas) accuracy1
             = Inr kerning_finas \<longrightarrow>
           (\<exists>st'. action E units percentage st =
                    kerning_routine E kerning_finas binned_medis st'))"
proof -
  have a: "at_height_action E lo hi target_name =
     Inr [Routine (''At_'' @ str_int lo @ ''_'' @ str_int hi @ ''_'' @ target_name) 12
            (concat (map (\<lambda>i. concat (map (\<lambda>t.
                if lo \<le> quantize (sum_list (map snd t)) rise_quantization
                   \<and> quantize (sum_list (map snd t)) rise_quantization \<le> hi
                then [Chaining [isols_class @ finas, inits_class] (rev (map fst t))
                        [Some [target_routine], None]]
                else [])
              (all_options binned_finas binned_medis i))) [5, 4, 3, 2, 1, 0]))
            None]"
    using assms
    by (simp add: at_height_action_def named_class_def at_height_lengths_eq
        at_height_options_eq word_lengths_eq)
  have b: "\<forall>bariye kerning_finas.
           namedClasses E ''bariye'' = Some bariye \<and>
           bin_glyphs_by_metric E (filter (\<lambda>x. x \<notin> set bariye) finas) accuracy1
             = Inr kerning_finas \<longrightarrow>
           (\<exists>st'. action E units percentage st =
                    kerning_routine E kerning_finas binned_medis st')"
    using action_loops [OF assms(2) assms(3) _ assms(4) assms(5) assms(6)] by blast
  from a b show ?thesis by blast
qed

theorem at_height_rules_witness:
  "routineNamed example_env ''dots'' = Some 7
   \<and> namedClasses example_env ''inits'' = Some [''I'']
   \<and> namedClasses example_env ''medis'' = Some [''M'']
   \<and> namedClasses example_env ''isols'' = Some [''S'']
   \<and> namedClasses example_env ''finas'' = Some [''F'']
   \<and> bin_glyphs_by_metric example_env [''M''] accuracy1 = Inr [([''M''], 100)]
   \<and> bin_glyphs_by_metric example_env [''F''] accuracy1 = Inr [([''F''], 0)]
   \<and> at_height_action example_env 0 100 ''dots'' =
       Inr [Routine ''At_0_100_dots'' 12
              [Chaining [[''S'', ''F''], [''I'']] [[''M''], [''F'']] [Some [7], None],
               Chaining [[''S'', ''F''], [''I'']] [[''F'']] [Some [7], None]]
              None]
   \<and> namedClasses example_env ''bariye'' = Some []
   \<and> (\<exists>st'. action example_env 50 40 example_state =
               kerning_routine example_env [([''F''], 0)] [([''M''], 100)] st')"
proof -
  have a: "routineNamed example_env ''dots'' = Some 7"
    and b: "namedClasses example_env ''inits'' = Some [''I'']"
    and c: "namedClasses example_env ''medis'' = Some [''M'']"
    and d: "namedClasses example_env ''isols'' = Some [''S'']"
    and e: "namedClasses example_env ''finas'' = Some [''F'']"
    and f: "bin_glyphs_by_metric example_env [''M''] accuracy1 = Inr [([''M''], 100)]"
    and g: "bin_glyphs_by_metric example_env [''F''] accuracy1 = Inr [([''F''], 0)]"
    and h: "namedClasses example_env ''bariye'' = Some []"
    by (simp_all add: example_env_def)
  have n: "str_int 0 = ''0''" "str_int 100 = ''100''"
    by (simp_all add: str_int_def str_nat.simps digit_char_def)
  note inst = at_height_rules [OF a b c d e f g, of 0 100 50 40 example_state]
  from inst have r: "at_height_action example_env 0 100 ''dots'' =
       Inr [Routine ''At_0_100_dots'' 12
              [Chaining [[''S'', ''F''], [''I'']] [[''M''], [''F'']] [Some [7], None],
               Chaining [[''S'', ''F''], [''I'']] [[''F'']] [Some [7], None]]
              None]"
    by (simp add: all_options_single quantize_int rise_quantization_def n)
  have g': "bin_glyphs_by_metric example_env (filter (\<lambda>x. x \<notin> set []) [''F'']) accuracy1
      = Inr [([''F''], 0)]"
    by (simp add: example_env_def)
  from inst h g' have m: "\<exists>st'. action example_env 50 40 example_state =
               kerning_routine example_env [([''F''], 0)] [([''M''], 100)] st'"
    by blast
  from a b c d e f g r h m show ?thesis by blast
qed

text \<open>
  With a final glyph that rises by 800 and the interval from 600 to 600, the main
  enumeration has six contexts of rise 600 (the first without its final group), and
  \<open>AtHeight\<close> emits no rule. With the interval from -100 to 800 it emits the six rules
  with all their groups. With a glyph \<open>B\<close> that is both in \<open>finas\<close> and in \<open>bariye\<close>, the
  contexts of \<open>AtHeight\<close> end with the group of \<open>F\<close> and \<open>B\<close>, and the main compiler runs
  over the bin of \<open>F\<close> alone.
\<close>

theorem at_height_counterexample:
  "at_height_action tall_env 600 600 ''dots'' = Inr [Routine ''At_600_600_dots'' 12 [] None]
   \<and> claimed_at_height_contexts 600 600 [([''F''], 800)] [([''M''], 0)] =
       [[[''M''], [''M''], [''M''], [''M''], [''M'']],
        [[''M''], [''M''], [''M''], [''M''], [''F'']],
        [[''M''], [''M''], [''M''], [''F'']],
        [[''M''], [''M''], [''F'']],
        [[''M''], [''F'']],
        [[''F'']]]
   \<and> at_height_action tall_env (- 100) 800 ''dots'' =
       Inr [Routine ''At_-100_800_dots'' 12
              [Chaining [[''S'', ''F''], [''I'']]
                 [[''M''], [''M''], [''M''], [''M''], [''M''], [''F'']] [Some [7], None],
               Chaining [[''S'', ''F''], [''I'']]
                 [[''M''], [''M''], [''M''], [''M''], [''F'']] [Some [7], None],
               Chaining [[''S'', ''F''], [''I'']]
                 [[''M''], [''M''], [''M''], [''F'']] [Some [7], None],
               Chaining [[''S'', ''F''], [''I'']] [[''M''], [''M''], [''F'']] [Some [7], None],
               Chaining [[''S'', ''F''], [''I'']] [[''M''], [''F'']] [Some [7], None],
               Chaining [[''S'', ''F''], [''I'']] [[''F'']] [Some [7], None]]
              None]
   \<and> at_height_action bariye_env 0 0 ''dots'' =
       Inr [Routine ''At_0_0_dots'' 12
              [Chaining [[''S'', ''F'', ''B''], [''I'']]
                 [[''M''], [''M''], [''M''], [''M''], [''M''], [''F'', ''B'']] [Some [7], None],
               Chaining [[''S'', ''F'', ''B''], [''I'']]
                 [[''M''], [''M''], [''M''], [''M''], [''F'', ''B'']] [Some [7], None],
               Chaining [[''S'', ''F'', ''B''], [''I'']]
                 [[''M''], [''M''], [''M''], [''F'', ''B'']] [Some [7], None],
               Chaining [[''S'', ''F'', ''B''], [''I'']]
                 [[''M''], [''M''], [''F'', ''B'']] [Some [7], None],
               Chaining [[''S'', ''F'', ''B''], [''I'']] [[''M''], [''F'', ''B'']] [Some [7], None],
               Chaining [[''S'', ''F'', ''B''], [''I'']] [[''F'', ''B'']] [Some [7], None]]
              None]
   \<and> (\<exists>st'. action bariye_env 50 40 example_state =
               kerning_routine bariye_env [([''F''], 0)] [([''M''], 0)] st')
   \<and> claimed_at_height_contexts 0 0 [([''F''], 0)] [([''M''], 0)] =
       [[[''M''], [''M''], [''M''], [''M''], [''M''], [''F'']],
        [[''M''], [''M''], [''M''], [''M''], [''F'']],
        [[''M''], [''M''], [''M''], [''F'']],
        [[''M''], [''M''], [''F'']],
        [[''M''], [''F'']],
        [[''F'']]]"
proof -
  have n: "str_int 600 = ''600''" "str_int 800 = ''800''" "str_int (- 100) = ''-100''"
      "str_int 0 = ''0''"
    by (simp_all add: str_int_def str_nat.simps digit_char_def)
  have a: "at_height_action tall_env 600 600 ''dots'' = Inr [Routine ''At_600_600_dots'' 12 [] None]"
    by (simp add: at_height_action_def named_class_def tall_env_def example_env_def
        word_lengths_eq all_options_single quantize_int rise_quantization_def Let_def n)
  have b: "claimed_at_height_contexts 600 600 [([''F''], 800)] [([''M''], 0)] =
       [[[''M''], [''M''], [''M''], [''M''], [''M'']],
        [[''M''], [''M''], [''M''], [''M''], [''F'']],
        [[''M''], [''M''], [''M''], [''F'']],
        [[''M''], [''M''], [''F'']],
        [[''M''], [''F'']],
        [[''F'']]]"
    by (simp add: claimed_at_height_contexts_def enumerated_sequences_def word_lengths_eq
        all_options_single word_tail_def quantize_int rise_quantization_def maximum_rise_def
        maximum_word_length_def Let_def)
  have c: "at_height_action tall_env (- 100) 800 ''dots'' =
       Inr [Routine ''At_-100_800_dots'' 12
              [Chaining [[''S'', ''F''], [''I'']]
                 [[''M''], [''M''], [''M''], [''M''], [''M''], [''F'']] [Some [7], None],
               Chaining [[''S'', ''F''], [''I'']]
                 [[''M''], [''M''], [''M''], [''M''], [''F'']] [Some [7], None],
               Chaining [[''S'', ''F''], [''I'']]
                 [[''M''], [''M''], [''M''], [''F'']] [Some [7], None],
               Chaining [[''S'', ''F''], [''I'']] [[''M''], [''M''], [''F'']] [Some [7], None],
               Chaining [[''S'', ''F''], [''I'']] [[''M''], [''F'']] [Some [7], None],
               Chaining [[''S'', ''F''], [''I'']] [[''F'']] [Some [7], None]]
              None]"
    by (simp add: at_height_action_def named_class_def tall_env_def example_env_def
        word_lengths_eq all_options_single quantize_int rise_quantization_def Let_def n)
  have d: "at_height_action bariye_env 0 0 ''dots'' =
       Inr [Routine ''At_0_0_dots'' 12
              [Chaining [[''S'', ''F'', ''B''], [''I'']]
                 [[''M''], [''M''], [''M''], [''M''], [''M''], [''F'', ''B'']] [Some [7], None],
               Chaining [[''S'', ''F'', ''B''], [''I'']]
                 [[''M''], [''M''], [''M''], [''M''], [''F'', ''B'']] [Some [7], None],
               Chaining [[''S'', ''F'', ''B''], [''I'']]
                 [[''M''], [''M''], [''M''], [''F'', ''B'']] [Some [7], None],
               Chaining [[''S'', ''F'', ''B''], [''I'']]
                 [[''M''], [''M''], [''F'', ''B'']] [Some [7], None],
               Chaining [[''S'', ''F'', ''B''], [''I'']] [[''M''], [''F'', ''B'']] [Some [7], None],
               Chaining [[''S'', ''F'', ''B''], [''I'']] [[''F'', ''B'']] [Some [7], None]]
              None]"
    by (simp add: at_height_action_def named_class_def bariye_env_def example_env_def
        word_lengths_eq all_options_single quantize_int rise_quantization_def Let_def n)
  have e: "\<exists>st'. action bariye_env 50 40 example_state =
               kerning_routine bariye_env [([''F''], 0)] [([''M''], 0)] st'"
  proof -
    have "namedClasses bariye_env ''inits'' = Some [''I'']"
      and "namedClasses bariye_env ''medis'' = Some [''M'']"
      and "namedClasses bariye_env ''bariye'' = Some [''B'']"
      and "namedClasses bariye_env ''isols'' = Some [''S'']"
      and "namedClasses bariye_env ''finas'' = Some [''F'', ''B'']"
      and "bin_glyphs_by_metric bariye_env [''M''] accuracy1 = Inr [([''M''], 0)]"
      and "bin_glyphs_by_metric bariye_env (filter (\<lambda>x. x \<notin> set [''B'']) [''F'', ''B''])
             accuracy1 = Inr [([''F''], 0)]"
      by (simp_all add: bariye_env_def example_env_def)
    then show ?thesis
      by (intro exI) (rule action_loops)
  qed
  have f: "claimed_at_height_contexts 0 0 [([''F''], 0)] [([''M''], 0)] =
       [[[''M''], [''M''], [''M''], [''M''], [''M''], [''F'']],
        [[''M''], [''M''], [''M''], [''M''], [''F'']],
        [[''M''], [''M''], [''M''], [''F'']],
        [[''M''], [''M''], [''F'']],
        [[''M''], [''F'']],
        [[''F'']]]"
    by (simp add: claimed_at_height_contexts_def enumerated_sequences_def word_lengths_eq
        all_options_single word_tail_def quantize_int rise_quantization_def maximum_rise_def
        maximum_word_length_def Let_def)
  from a b c d e f show ?thesis by blast
qed

subsection \<open>The ink-to-ink table\<close>







subsection \<open>The handle of the kern cache\<close>

text \<open>
  No method other than \<open>action\<close> opens or closes the store: each leaves the handle as
  it finds it, whether it returns or raises.
\<close>

lemma determine_kern_cached_handle:
  "shelve_is_open (snd (determine_kern_cached E g1 g2 td h mt st)) = shelve_is_open st
   \<and> shelve_opens (snd (determine_kern_cached E g1 g2 td h mt st)) = shelve_opens st"
  by (simp add: determine_kern_cached_def Let_def split: option.splits sum.splits)

lemma kern_row_handle:
  "shelve_is_open (snd (kern_row E r e lefts row st)) = shelve_is_open st
   \<and> shelve_opens (snd (kern_row E r e lefts row st)) = shelve_opens st"
proof (induction lefts arbitrary: row st)
  case Nil
  show ?case by simp
next
  case (Cons initial others)
  obtain res st1 where d: "determine_kern_cached E initial e (distance_at_closest st) r
      (maxtuck st) st = (res, st1)"
    by (cases "determine_kern_cached E initial e (distance_at_closest st) r (maxtuck st) st")
  from determine_kern_cached_handle [of E initial e "distance_at_closest st" r "maxtuck st" st] d
  have h: "shelve_is_open st1 = shelve_is_open st" "shelve_opens st1 = shelve_opens st"
    by simp_all
  show ?case
    by (cases res) (simp_all add: d h Cons.IH)
qed

lemma kern_rows_handle:
  "shelve_is_open (snd (kern_rows E r rights lefts kt st)) = shelve_is_open st
   \<and> shelve_opens (snd (kern_rows E r rights lefts kt st)) = shelve_opens st"
proof (induction rights arbitrary: kt st)
  case Nil
  show ?case by simp
next
  case (Cons e others)
  obtain res st1 where d: "kern_row E r e lefts [] st = (res, st1)"
    by (cases "kern_row E r e lefts [] st")
  from kern_row_handle [of E r e lefts "[]" st] d
  have h: "shelve_is_open st1 = shelve_is_open st" "shelve_opens st1 = shelve_opens st"
    by simp_all
  show ?case
    by (cases res) (simp_all add: d h Cons.IH)
qed

lemma referenceRoutine_handle:
  "shelve_is_open (snd (referenceRoutine ob tbl st)) = shelve_is_open st
   \<and> shelve_opens (snd (referenceRoutine ob tbl st)) = shelve_opens st"
  by (simp add: referenceRoutine_def Let_def)

lemma ink_to_ink_at_handle:
  "shelve_is_open (snd (ink_to_ink_at E r st)) = shelve_is_open st
   \<and> shelve_opens (snd (ink_to_ink_at E r st)) = shelve_opens st"
  by (simp add: ink_to_ink_at_def referenceRoutine_def Let_def split: option.splits sum.splits)

lemma generate_kern_table_for_rise_handle:
  "shelve_is_open (snd (generate_kern_table_for_rise E r0 st)) = shelve_is_open st
   \<and> shelve_opens (snd (generate_kern_table_for_rise E r0 st)) = shelve_opens st"
proof (cases "kern_at_rise st r0")
  case (Some a)
  then show ?thesis by (simp add: generate_kern_table_for_rise_def)
next
  case None
  obtain res st1 where d: "kern_rows E (quantize r0 rise_quantization) (isols_finas st)
      (sort (ends_at st (quantize r0 rise_quantization))) [] st = (res, st1)"
    by (cases "kern_rows E (quantize r0 rise_quantization) (isols_finas st)
      (sort (ends_at st (quantize r0 rise_quantization))) [] st")
  from kern_rows_handle [of E "quantize r0 rise_quantization" "isols_finas st"
      "sort (ends_at st (quantize r0 rise_quantization))" "[]" st] d
  have h: "shelve_is_open st1 = shelve_is_open st" "shelve_opens st1 = shelve_opens st"
    by simp_all
  show ?thesis
  proof (cases res)
    case (Inl e)
    with None d h show ?thesis by (simp add: generate_kern_table_for_rise_def Let_def)
  next
    case (Inr kt)
    show ?thesis
    proof (cases "namedClasses E ''all_above_marks''")
      case None
      with \<open>kern_at_rise st r0 = None\<close> Inr d h show ?thesis
        by (simp add: generate_kern_table_for_rise_def Let_def)
    next
      case (Some abovemarks)
      obtain kr st2 where rr: "referenceRoutine
              (Routine (''kern_at_'' @ str_int (quantize r0 rise_quantization)) 12
                 (kern_rules kt) (Some abovemarks)) (Some kt) st1 = (kr, st2)"
        by (cases "referenceRoutine
              (Routine (''kern_at_'' @ str_int (quantize r0 rise_quantization)) 12
                 (kern_rules kt) (Some abovemarks)) (Some kt) st1")
      from referenceRoutine_handle [of _ "Some kt" st1] rr h
      have h2: "shelve_is_open st2 = shelve_is_open st" "shelve_opens st2 = shelve_opens st"
        by (metis snd_conv)+
      obtain res3 st3 where ii: "ink_to_ink_at E (quantize r0 rise_quantization) st2 = (res3, st3)"
        by (cases "ink_to_ink_at E (quantize r0 rise_quantization) st2")
      from ink_to_ink_at_handle [of E "quantize r0 rise_quantization" st2] ii h2
      have h3: "shelve_is_open st3 = shelve_is_open st" "shelve_opens st3 = shelve_opens st"
        by simp_all
      from \<open>kern_at_rise st r0 = None\<close> Inr Some d rr ii h2 h3 show ?thesis
        by (cases res3) (simp_all add: generate_kern_table_for_rise_def Let_def)
    qed
  qed
qed

lemma sequence_rules_handle:
  "shelve_is_open (snd (sequence_rules E i t st)) = shelve_is_open st
   \<and> shelve_opens (snd (sequence_rules E i t st)) = shelve_opens st"
proof (cases "word_tail i t")
  case (Inl e)
  then show ?thesis by (simp add: sequence_rules_def)
next
  case (Inr w)
  show ?thesis
  proof (cases w)
    case None
    with Inr show ?thesis by (simp add: sequence_rules_def)
  next
    case (Some p)
    obtain word_tail_rise groups where p: "p = (word_tail_rise, groups)" by (cases p)
    obtain res st1 where g: "generate_kern_table_for_rise E word_tail_rise st = (res, st1)"
      by (cases "generate_kern_table_for_rise E word_tail_rise st")
    from generate_kern_table_for_rise_handle [of E word_tail_rise st] g
    have h: "shelve_is_open st1 = shelve_is_open st" "shelve_opens st1 = shelve_opens st"
      by simp_all
    from Inr Some p g h show ?thesis
      by (cases res) (simp_all add: sequence_rules_def)
  qed
qed

lemma options_rules_handle:
  "shelve_is_open (snd (options_rules E i ts st)) = shelve_is_open st
   \<and> shelve_opens (snd (options_rules E i ts st)) = shelve_opens st"
proof (induction ts arbitrary: st)
  case Nil
  show ?case by simp
next
  case (Cons t others)
  obtain res st1 where s: "sequence_rules E i t st = (res, st1)"
    by (cases "sequence_rules E i t st")
  from sequence_rules_handle [of E i t st] s
  have h: "shelve_is_open st1 = shelve_is_open st" "shelve_opens st1 = shelve_opens st"
    by simp_all
  obtain res2 st2 where o: "options_rules E i others st1 = (res2, st2)"
    by (cases "options_rules E i others st1")
  from Cons.IH [of st1] o h
  have h2: "shelve_is_open st2 = shelve_is_open st" "shelve_opens st2 = shelve_opens st"
    by simp_all
  show ?case
    by (cases res; cases res2) (simp_all add: s o h h2)
qed

lemma lengths_rules_handle:
  "shelve_is_open (snd (lengths_rules E bf bm lens st)) = shelve_is_open st
   \<and> shelve_opens (snd (lengths_rules E bf bm lens st)) = shelve_opens st"
proof (induction lens arbitrary: st)
  case Nil
  show ?case by simp
next
  case (Cons i others)
  obtain res st1 where s: "options_rules E i (all_options bf bm i) st = (res, st1)"
    by (cases "options_rules E i (all_options bf bm i) st")
  from options_rules_handle [of E i "all_options bf bm i" st] s
  have h: "shelve_is_open st1 = shelve_is_open st" "shelve_opens st1 = shelve_opens st"
    by simp_all
  obtain res2 st2 where o: "lengths_rules E bf bm others st1 = (res2, st2)"
    by (cases "lengths_rules E bf bm others st1")
  from Cons.IH [of st1] o h
  have h2: "shelve_is_open st2 = shelve_is_open st" "shelve_opens st2 = shelve_opens st"
    by simp_all
  show ?case
    by (cases res; cases res2) (simp_all add: s o h h2)
qed

lemma kerning_routine_handle:
  "shelve_opens (snd (kerning_routine E bf bm st)) = shelve_opens st
   \<and> shelve_is_open (snd (kerning_routine E bf bm st)) =
       (case fst (kerning_routine E bf bm st) of
          Inl e \<Rightarrow> shelve_is_open st | Inr produced \<Rightarrow> False)"
proof -
  obtain res st1 where s: "lengths_rules E bf bm word_lengths st = (res, st1)"
    by (cases "lengths_rules E bf bm word_lengths st")
  from lengths_rules_handle [of E bf bm word_lengths st] s
  have h: "shelve_is_open st1 = shelve_is_open st" "shelve_opens st1 = shelve_opens st"
    by simp_all
  obtain res2 st2 where g: "generate_kern_table_for_rise E 0 st1 = (res2, st2)"
    by (cases "generate_kern_table_for_rise E 0 st1")
  from generate_kern_table_for_rise_handle [of E 0 st1] g h
  have h2: "shelve_is_open st2 = shelve_is_open st" "shelve_opens st2 = shelve_opens st"
    by simp_all
  show ?thesis
    by (cases res; cases res2) (simp_all add: kerning_routine_def s g h h2)
qed

text \<open>
  C9, as the code has it. A run calls \<open>shelve.open\<close> exactly once, before anything that
  can raise. The store is closed when the run returns its routines, by the last statement
  of the method, and is still open when the run ends with an exception: nothing closes it
  on that path.
\<close>

theorem shelve_left_open_on_error:
  "shelve_opens (snd (action E units percentage st)) = Suc (shelve_opens st)
   \<and> shelve_is_open (snd (action E units percentage st)) =
       (case fst (action E units percentage st) of Inl e \<Rightarrow> True | Inr produced \<Rightarrow> False)"
  by (simp add: action_def named_class_def Let_def kerning_routine_handle
      split: option.splits sum.splits)

text \<open>
  A run over the font whose glyphs do not rise returns its routine; the store has been
  opened once and is closed.
\<close>

theorem shelve_left_open_on_error_witness:
  "shelve_opens fresh_state = 0
   \<and> shelve_opens (snd (action bariye_env 50 40 fresh_state)) = 1
   \<and> \<not> shelve_is_open (snd (action bariye_env 50 40 fresh_state))
   \<and> fst (action bariye_env 50 40 fresh_state) =
     Inr [Routine ''NastaliqKerning'' 12
            [Chaining [[''S'', ''F'', ''B'']]
               [[''I''], [''M''], [''M''], [''M''], [''M''], [''M''], [''F'']] [Some [4]],
             Chaining [[''S'', ''F'', ''B'']]
               [[''I''], [''M''], [''M''], [''M''], [''M''], [''F'']] [Some [4]],
             Chaining [[''S'', ''F'', ''B'']]
               [[''I''], [''M''], [''M''], [''M''], [''F'']] [Some [4]],
             Chaining [[''S'', ''F'', ''B'']] [[''I''], [''M''], [''M''], [''F'']] [Some [4]],
             Chaining [[''S'', ''F'', ''B'']] [[''I''], [''M''], [''F'']] [Some [4]],
             Chaining [[''S'', ''F'', ''B'']] [[''I''], [''F'']] [Some [4]],
             Chaining [[''S'', ''F'', ''B'']] [[''S'']] [Some [4]]]
            None]"
proof -
  have run: "fst (action bariye_env 50 40 fresh_state) =
     Inr [Routine ''NastaliqKerning'' 12
            [Chaining [[''S'', ''F'', ''B'']]
               [[''I''], [''M''], [''M''], [''M''], [''M''], [''M''], [''F'']] [Some [4]],
             Chaining [[''S'', ''F'', ''B'']]
               [[''I''], [''M''], [''M''], [''M''], [''M''], [''F'']] [Some [4]],
             Chaining [[''S'', ''F'', ''B'']]
               [[''I''], [''M''], [''M''], [''M''], [''F'']] [Some [4]],
             Chaining [[''S'', ''F'', ''B'']] [[''I''], [''M''], [''M''], [''F'']] [Some [4]],
             Chaining [[''S'', ''F'', ''B'']] [[''I''], [''M''], [''F'']] [Some [4]],
             Chaining [[''S'', ''F'', ''B'']] [[''I''], [''F'']] [Some [4]],
             Chaining [[''S'', ''F'', ''B'']] [[''S'']] [Some [4]]]
            None]"
  by (simp add: action_def named_class_def bariye_env_def example_env_def fresh_state_def
        example_state_def kerning_routine_def word_lengths_eq all_options_single
        sequence_rules_def word_tail_def quantize_int rise_quantization_def maximum_rise_def
        maximum_word_length_def generate_kern_table_for_rise_def ends_at_def
        determine_kern_cached_def Let_def cache_key_def str_int_def str_nat.simps digit_char_def
        kern_quantization_def referenceRoutine_def ink_to_ink_at_def taper_def py_int_def
        chain_rules_def blockers_def kern_rules_def)
  from shelve_left_open_on_error [of bariye_env 50 40 fresh_state] run
  show ?thesis by (simp add: fresh_state_def example_state_def)
qed

text \<open>
  A run with a solver that raises on the first pair: the exception leaves the run, and
  the store, closed before the run, is open after it.
\<close>

theorem shelve_left_open_counterexample:
  "\<not> shelve_is_open fresh_state
   \<and> fst (action failing_env 50 40 fresh_state) = Inl (SolverError ''no solution'')
   \<and> shelve_is_open (snd (action failing_env 50 40 fresh_state))
   \<and> solver_calls (snd (action failing_env 50 40 fresh_state)) = [(''I'', ''S'', 50, 500, 2 / 5)]"
  by (simp add: action_def named_class_def failing_env_def example_env_def fresh_state_def
      example_state_def kerning_routine_def word_lengths_eq all_options_single
      sequence_rules_def word_tail_def quantize_int rise_quantization_def maximum_rise_def
      maximum_word_length_def generate_kern_table_for_rise_def ends_at_def
      determine_kern_cached_def Let_def)

subsection \<open>The kern table of a rise\<close>

text \<open>
  The cache is written once: \<open>determine_kern_cached\<close> and the loops of the table change
  nothing of the state but the entries of the store and the record of the solver calls,
  an entry is never overwritten, the value returned is the entry of the key afterwards,
  and a new entry is the answer of the solver for a pair with that key.
\<close>

lemma determine_kern_cached_frame:
  "snd (determine_kern_cached E g1 g2 td h mt st) =
     st\<lparr>shelve := shelve (snd (determine_kern_cached E g1 g2 td h mt st)),
        solver_calls := solver_calls (snd (determine_kern_cached E g1 g2 td h mt st))\<rparr>"
  by (simp add: determine_kern_cached_def Let_def split: option.splits sum.splits)


lemma kern_row_frame:
  "snd (kern_row E r e lefts row st) =
     st\<lparr>shelve := shelve (snd (kern_row E r e lefts row st)),
        solver_calls := solver_calls (snd (kern_row E r e lefts row st))\<rparr>"
proof (induction lefts arbitrary: row st)
  case Nil
  show ?case by simp
next
  case (Cons initial others)
  obtain res st1 where d: "determine_kern_cached E initial e (distance_at_closest st) r
      (maxtuck st) st = (res, st1)"
    by (cases "determine_kern_cached E initial e (distance_at_closest st) r (maxtuck st) st")
  from determine_kern_cached_frame [of E initial e "distance_at_closest st" r "maxtuck st" st] d
  have f: "st1 = st\<lparr>shelve := shelve st1, solver_calls := solver_calls st1\<rparr>" by simp
  show ?case
  proof (cases res)
    case (Inl err)
    with d f show ?thesis by simp
  next
    case (Inr kern)
    let ?row1 = "if kern < - 10 then AList.update initial (quantize kern kern_quantization) row
                 else row"
    from Cons.IH [of ?row1 st1]
    have "snd (kern_row E r e others ?row1 st1) =
        st1\<lparr>shelve := shelve (snd (kern_row E r e others ?row1 st1)),
            solver_calls := solver_calls (snd (kern_row E r e others ?row1 st1))\<rparr>" .
    also have "\<dots> = st\<lparr>shelve := shelve (snd (kern_row E r e others ?row1 st1)),
            solver_calls := solver_calls (snd (kern_row E r e others ?row1 st1))\<rparr>"
      by (subst f) simp
    finally show ?thesis using d Inr by simp
  qed
qed




lemma kern_rows_frame:
  "snd (kern_rows E r rights lefts kt st) =
     st\<lparr>shelve := shelve (snd (kern_rows E r rights lefts kt st)),
        solver_calls := solver_calls (snd (kern_rows E r rights lefts kt st))\<rparr>"
proof (induction rights arbitrary: kt st)
  case Nil
  show ?case by simp
next
  case (Cons e others)
  obtain res st1 where d: "kern_row E r e lefts [] st = (res, st1)"
    by (cases "kern_row E r e lefts [] st")
  from kern_row_frame [of E r e lefts "[]" st] d
  have f: "st1 = st\<lparr>shelve := shelve st1, solver_calls := solver_calls st1\<rparr>" by simp
  show ?case
  proof (cases res)
    case (Inl err)
    with d f show ?thesis by simp
  next
    case (Inr row)
    let ?kt1 = "AList.update e row kt"
    from Cons.IH [of ?kt1 st1]
    have "snd (kern_rows E r others lefts ?kt1 st1) =
        st1\<lparr>shelve := shelve (snd (kern_rows E r others lefts ?kt1 st1)),
            solver_calls := solver_calls (snd (kern_rows E r others lefts ?kt1 st1))\<rparr>" .
    also have "\<dots> = st\<lparr>shelve := shelve (snd (kern_rows E r others lefts ?kt1 st1)),
            solver_calls := solver_calls (snd (kern_rows E r others lefts ?kt1 st1))\<rparr>"
      by (subst f) simp
    finally show ?thesis using d Inr by simp
  qed
qed



text \<open>
  What \<open>generate_kern_table_for_rise\<close> does when it has no routine stored for its
  argument and returns: the state it leaves and the address it returns, in terms of the
  table of the loops and of \<open>ink_to_ink_at\<close>.
\<close>

lemma ink_to_ink_at_result:
  assumes "ink_to_ink_at E r st = (Inr ink, st')"
  shows "(ink_to_ink_routines st r = Some ink \<and> st' = st)
     \<or> (ink_to_ink_routines st r = None
         \<and> ink = Suc (length (heap st))
         \<and> (\<exists>ink_rules. st' = st\<lparr>
               heap := heap st @ [Routine (''ink_to_ink_'' @ str_int r) 12 ink_rules None,
                                  RoutineReference (length (heap st)) None],
               routines := routines st @ [length (heap st)],
               ink_to_ink_routines := (ink_to_ink_routines st)(r \<mapsto> ink)\<rparr>))"
  using assms
  by (auto simp add: ink_to_ink_at_def referenceRoutine_def Let_def
      split: option.splits sum.splits)

lemma generate_kern_table_for_rise_built:
  assumes "kern_at_rise st r0 = None"
    and "generate_kern_table_for_rise E r0 st = (Inr a, st')"
    and "r = quantize r0 rise_quantization"
  shows "\<exists>kerntable st1 abovemarks.
      kern_rows E r (isols_finas st) (sort (ends_at st r)) [] st = (Inr kerntable, st1)
    \<and> namedClasses E ''all_above_marks'' = Some abovemarks
    \<and> (if 400 \<le> r then
          a = Suc (length (heap st))
          \<and> st' = st1\<lparr>
              heap := heap st @
                [Routine (''kern_at_'' @ str_int r) 12 (kern_rules kerntable) (Some abovemarks),
                 RoutineReference (length (heap st)) (Some kerntable)],
              routines := routines st @ [length (heap st)],
              kern_at_rise := (kern_at_rise st)(r \<mapsto> a)\<rparr>
        else
          (\<exists>ink st3.
             ink_to_ink_at E r (st1\<lparr>
                 heap := heap st @
                   [Routine (''kern_at_'' @ str_int r) 12 (kern_rules kerntable)
                      (Some abovemarks),
                    RoutineReference (length (heap st)) (Some kerntable)],
                 routines := routines st @ [length (heap st)]\<rparr>) = (Inr ink, st3)
           \<and> a = length (heap st3)
           \<and> st' = st3\<lparr>
               heap := heap st3 @
                 [Routine (''dispatch_'' @ str_int r) 8
                    [Chaining [isols_finas st, [''space.urdu''], ends_at st r] []
                       [Some [ink], Some [], Some []],
                     Chaining [isols_finas st, ends_at st r] []
                       [Some [Suc (length (heap st))], Some [], Some []]]
                    None],
               kern_at_rise := (kern_at_rise st)(r \<mapsto> a)\<rparr>))"
proof -
  obtain res st1 where k: "kern_rows E r (isols_finas st) (sort (ends_at st r)) [] st = (res, st1)"
    by (cases "kern_rows E r (isols_finas st) (sort (ends_at st r)) [] st")
  from kern_rows_frame [of E r "isols_finas st" "sort (ends_at st r)" "[]" st] k
  have fr: "st1 = st\<lparr>shelve := shelve st1, solver_calls := solver_calls st1\<rparr>" by simp
  have f: "heap st1 = heap st" "routines st1 = routines st" "kern_at_rise st1 = kern_at_rise st"
    "isols_finas st1 = isols_finas st"
    by (subst fr, simp)+
  from assms k obtain kerntable where res: "res = Inr kerntable"
    by (cases res) (simp_all add: generate_kern_table_for_rise_def Let_def)
  from assms k res obtain abovemarks where am: "namedClasses E ''all_above_marks'' = Some abovemarks"
    by (cases "namedClasses E ''all_above_marks''")
      (simp_all add: generate_kern_table_for_rise_def Let_def)
  let ?st2 = "st1\<lparr>
                 heap := heap st @
                   [Routine (''kern_at_'' @ str_int r) 12 (kern_rules kerntable)
                      (Some abovemarks),
                    RoutineReference (length (heap st)) (Some kerntable)],
                 routines := routines st @ [length (heap st)]\<rparr>"
  show ?thesis
  proof (cases "400 \<le> r")
    case True
    with assms k res am f show ?thesis
      by (auto simp add: generate_kern_table_for_rise_def Let_def referenceRoutine_def)
  next
    case False
    obtain res3 st3 where i: "ink_to_ink_at E r ?st2 = (res3, st3)"
      by (cases "ink_to_ink_at E r ?st2")
    from False assms k res am f i obtain ink where res3: "res3 = Inr ink"
      by (cases res3) (simp_all add: generate_kern_table_for_rise_def Let_def referenceRoutine_def)
    from ink_to_ink_at_result [of E r ?st2 ink st3] i res3
    have f3: "isols_finas st3 = isols_finas st" "kern_at_rise st3 = kern_at_rise st"
      using f by auto
    from False assms k res am f i res3 f3 show ?thesis
      by (auto simp add: generate_kern_table_for_rise_def Let_def referenceRoutine_def)
  qed
qed



subsection \<open>What the table builder returns\<close>

text \<open>
  C2, as the code has it. When \<open>generate_kern_table_for_rise\<close> has no routine stored for
  its argument and returns, it has quantized the argument to \<open>r\<close>, built the routine
  \<open>kern_at_r\<close> with its table, registered it, and stored what it returns under \<open>r\<close>.
  The threshold is tested on \<open>r\<close>, not on the argument, and nothing is clamped. When
  \<open>r\<close> is at least 400 it returns the reference of the kern routine. When \<open>r\<close> is below
  400 it returns a new routine \<open>dispatch_r\<close> with exactly two rules, in this order: the
  rule for a right glyph, the space and a left glyph, which calls the ink-to-ink routine
  of the rise (the one already stored for \<open>r\<close>, or one built then), and the rule for a
  right glyph and a left glyph, which calls the kern routine.
\<close>

theorem table_for_rise_shape:
  fixes r0 :: int and r :: int
  defines "r \<equiv> quantize r0 rise_quantization"
  assumes "kern_at_rise st r0 = None"
    and "generate_kern_table_for_rise E r0 st = (Inr a, st')"
  shows "\<exists>kerntable abovemarks.
      heap st' ! length (heap st) =
        Routine (''kern_at_'' @ str_int r) 12 (kern_rules kerntable) (Some abovemarks)
    \<and> heap st' ! Suc (length (heap st)) =
        RoutineReference (length (heap st)) (Some kerntable)
    \<and> kern_at_rise st' = (kern_at_rise st)(r \<mapsto> a)
    \<and> (400 \<le> r \<longrightarrow> a = Suc (length (heap st)) \<and> length (heap st') = length (heap st) + 2)
    \<and> (r < 400 \<longrightarrow>
         (\<exists>ink. ink_to_ink_routines st' r = Some ink
            \<and> (\<forall>b. ink_to_ink_routines st r = Some b \<longrightarrow> ink = b)
            \<and> (ink_to_ink_routines st r = None \<longrightarrow>
                 ink = length (heap st) + 3
                 \<and> heap st' ! ink = RoutineReference (length (heap st) + 2) None
                 \<and> (\<exists>ink_rules. heap st' ! (length (heap st) + 2) =
                       Routine (''ink_to_ink_'' @ str_int r) 12 ink_rules None))
            \<and> a = length (heap st') - 1
            \<and> heap st' ! a =
                Routine (''dispatch_'' @ str_int r) 8
                  [Chaining [isols_finas st, [''space.urdu''], ends_at st r] []
                     [Some [ink], Some [], Some []],
                   Chaining [isols_finas st, ends_at st r] []
                     [Some [Suc (length (heap st))], Some [], Some []]]
                  None))"
proof -
  have rq: "r = quantize r0 rise_quantization" by (simp add: r_def)
  from generate_kern_table_for_rise_built [OF assms(2) assms(3) rq]
  obtain kerntable st1 abovemarks where
    k: "kern_rows E r (isols_finas st) (sort (ends_at st r)) [] st = (Inr kerntable, st1)"
    and shape: "if 400 \<le> r then
          a = Suc (length (heap st))
          \<and> st' = st1\<lparr>
              heap := heap st @
                [Routine (''kern_at_'' @ str_int r) 12 (kern_rules kerntable) (Some abovemarks),
                 RoutineReference (length (heap st)) (Some kerntable)],
              routines := routines st @ [length (heap st)],
              kern_at_rise := (kern_at_rise st)(r \<mapsto> a)\<rparr>
        else
          (\<exists>ink st3.
             ink_to_ink_at E r (st1\<lparr>
                 heap := heap st @
                   [Routine (''kern_at_'' @ str_int r) 12 (kern_rules kerntable)
                      (Some abovemarks),
                    RoutineReference (length (heap st)) (Some kerntable)],
                 routines := routines st @ [length (heap st)]\<rparr>) = (Inr ink, st3)
           \<and> a = length (heap st3)
           \<and> st' = st3\<lparr>
               heap := heap st3 @
                 [Routine (''dispatch_'' @ str_int r) 8
                    [Chaining [isols_finas st, [''space.urdu''], ends_at st r] []
                       [Some [ink], Some [], Some []],
                     Chaining [isols_finas st, ends_at st r] []
                       [Some [Suc (length (heap st))], Some [], Some []]]
                    None],
               kern_at_rise := (kern_at_rise st)(r \<mapsto> a)\<rparr>)"
    by blast
  let ?R = "Routine (''kern_at_'' @ str_int r) 12 (kern_rules kerntable) (Some abovemarks)"
  let ?Ref = "RoutineReference (length (heap st)) (Some kerntable)"
  let ?st2 = "st1\<lparr>heap := heap st @ [?R, ?Ref], routines := routines st @ [length (heap st)]\<rparr>"
  from kern_rows_frame [of E r "isols_finas st" "sort (ends_at st r)" "[]" st] k
  have fr: "st1 = st\<lparr>shelve := shelve st1, solver_calls := solver_calls st1\<rparr>" by simp
  have f: "ink_to_ink_routines st1 = ink_to_ink_routines st"
    by (subst fr) simp
  show ?thesis
  proof (cases "400 \<le> r")
    case True
    with shape have a: "a = Suc (length (heap st))"
      and s: "st' = ?st2\<lparr>kern_at_rise := (kern_at_rise st)(r \<mapsto> a)\<rparr>"
      by simp_all
    show ?thesis
    proof (intro exI [of _ kerntable] exI [of _ abovemarks] conjI impI)
      show "heap st' ! length (heap st) = ?R" by (simp add: s nth_append)
      show "heap st' ! Suc (length (heap st)) = ?Ref" by (simp add: s nth_append)
      show "kern_at_rise st' = (kern_at_rise st)(r \<mapsto> a)" by (simp add: s)
      show "a = Suc (length (heap st))" by (rule a)
      show "length (heap st') = length (heap st) + 2" by (simp add: s)
      show "\<exists>ink. ink_to_ink_routines st' r = Some ink
            \<and> (\<forall>b. ink_to_ink_routines st r = Some b \<longrightarrow> ink = b)
            \<and> (ink_to_ink_routines st r = None \<longrightarrow>
                 ink = length (heap st) + 3
                 \<and> heap st' ! ink = RoutineReference (length (heap st) + 2) None
                 \<and> (\<exists>ink_rules. heap st' ! (length (heap st) + 2) =
                       Routine (''ink_to_ink_'' @ str_int r) 12 ink_rules None))
            \<and> a = length (heap st') - 1
            \<and> heap st' ! a =
                Routine (''dispatch_'' @ str_int r) 8
                  [Chaining [isols_finas st, [''space.urdu''], ends_at st r] []
                     [Some [ink], Some [], Some []],
                   Chaining [isols_finas st, ends_at st r] []
                     [Some [Suc (length (heap st))], Some [], Some []]]
                  None" if "r < 400"
        using that True by simp
    qed
  next
    case False
    let ?D = "\<lambda>ink. Routine (''dispatch_'' @ str_int r) 8
                    [Chaining [isols_finas st, [''space.urdu''], ends_at st r] []
                       [Some [ink], Some [], Some []],
                     Chaining [isols_finas st, ends_at st r] []
                       [Some [Suc (length (heap st))], Some [], Some []]]
                    None"
    from False shape obtain ink st3 where
      i: "ink_to_ink_at E r ?st2 = (Inr ink, st3)"
      and a: "a = length (heap st3)"
      and s: "st' = st3\<lparr>heap := heap st3 @ [?D ink],
               kern_at_rise := (kern_at_rise st)(r \<mapsto> a)\<rparr>"
      by auto
    from ink_to_ink_at_result [OF i] f
    have cases3: "(ink_to_ink_routines st r = Some ink \<and> st3 = ?st2)
      \<or> (ink_to_ink_routines st r = None \<and> ink = length (heap st) + 3
          \<and> (\<exists>ink_rules. st3 = ?st2\<lparr>
               heap := heap st @ [?R, ?Ref] @
                 [Routine (''ink_to_ink_'' @ str_int r) 12 ink_rules None,
                  RoutineReference (length (heap st) + 2) None],
               routines := routines ?st2 @ [length (heap st) + 2],
               ink_to_ink_routines := (ink_to_ink_routines st)(r \<mapsto> ink)\<rparr>))"
      by auto
    have h3: "\<exists>ext. heap st3 = heap st @ [?R, ?Ref] @ ext" using cases3 by auto
    then obtain ext where ext: "heap st3 = heap st @ [?R, ?Ref] @ ext" by blast
    have memo: "ink_to_ink_routines st3 r = Some ink" using cases3 f by auto
    have old: "\<forall>b. ink_to_ink_routines st r = Some b \<longrightarrow> ink = b" using cases3 by auto
    have new: "ink = length (heap st) + 3
                 \<and> heap st' ! ink = RoutineReference (length (heap st) + 2) None
                 \<and> (\<exists>ink_rules. heap st' ! (length (heap st) + 2) =
                       Routine (''ink_to_ink_'' @ str_int r) 12 ink_rules None)"
      if "ink_to_ink_routines st r = None"
    proof -
      from cases3 that obtain ink_rules where ink: "ink = length (heap st) + 3"
        and st3: "heap st3 = heap st @ [?R, ?Ref] @
                 [Routine (''ink_to_ink_'' @ str_int r) 12 ink_rules None,
                  RoutineReference (length (heap st) + 2) None]"
        by auto
      have "heap st' ! ink = RoutineReference (length (heap st) + 2) None"
        by (simp add: s st3 ink nth_append)
      moreover have "heap st' ! (length (heap st) + 2) =
          Routine (''ink_to_ink_'' @ str_int r) 12 ink_rules None"
        by (simp add: s st3 nth_append)
      ultimately show ?thesis using ink by blast
    qed
    show ?thesis
    proof (intro exI [of _ kerntable] exI [of _ abovemarks] conjI impI)
      show "heap st' ! length (heap st) = ?R" by (simp add: s ext nth_append)
      show "heap st' ! Suc (length (heap st)) = ?Ref" by (simp add: s ext nth_append)
      show "kern_at_rise st' = (kern_at_rise st)(r \<mapsto> a)" by (simp add: s)
      show "a = Suc (length (heap st))" if "400 \<le> r" using that False by simp
      show "length (heap st') = length (heap st) + 2" if "400 \<le> r" using that False by simp
      show "\<exists>ink. ink_to_ink_routines st' r = Some ink
            \<and> (\<forall>b. ink_to_ink_routines st r = Some b \<longrightarrow> ink = b)
            \<and> (ink_to_ink_routines st r = None \<longrightarrow>
                 ink = length (heap st) + 3
                 \<and> heap st' ! ink = RoutineReference (length (heap st) + 2) None
                 \<and> (\<exists>ink_rules. heap st' ! (length (heap st) + 2) =
                       Routine (''ink_to_ink_'' @ str_int r) 12 ink_rules None))
            \<and> a = length (heap st') - 1
            \<and> heap st' ! a = ?D ink"
      proof (intro exI [of _ ink] conjI)
        show "ink_to_ink_routines st' r = Some ink" by (simp add: s memo)
        show "\<forall>b. ink_to_ink_routines st r = Some b \<longrightarrow> ink = b" by (rule old)
        show "ink_to_ink_routines st r = None \<longrightarrow>
                 ink = length (heap st) + 3
                 \<and> heap st' ! ink = RoutineReference (length (heap st) + 2) None
                 \<and> (\<exists>ink_rules. heap st' ! (length (heap st) + 2) =
                       Routine (''ink_to_ink_'' @ str_int r) 12 ink_rules None)"
          using new by blast
        show "a = length (heap st') - 1" by (simp add: s a)
        show "heap st' ! a = ?D ink" by (simp add: s a)
      qed
    qed
  qed
qed

text \<open>
  At rise 0 the small font gets the dispatcher, whose first rule calls the ink-to-ink
  routine and whose second rule calls the kern routine; at rise 400 it gets the
  reference of the kern routine.
\<close>

theorem table_for_rise_shape_witness:
  "kern_at_rise example_state 0 = None
   \<and> quantize 0 rise_quantization = 0
   \<and> fst (generate_kern_table_for_rise example_env 0 example_state) = Inr 4
   \<and> ink_to_ink_routines (snd (generate_kern_table_for_rise example_env 0 example_state)) 0
       = Some 3
   \<and> heap (snd (generate_kern_table_for_rise example_env 0 example_state)) ! 4 =
       Routine ''dispatch_0'' 8
         [Chaining [[''S'', ''F''], [''space.urdu''], [''I'', ''S'']] []
            [Some [3], Some [], Some []],
          Chaining [[''S'', ''F''], [''I'', ''S'']] [] [Some [1], Some [], Some []]]
         None
   \<and> kern_at_rise example_state 400 = None
   \<and> quantize 400 rise_quantization = 400
   \<and> fst (generate_kern_table_for_rise example_env 400 example_state) = Inr 1
   \<and> heap (snd (generate_kern_table_for_rise example_env 400 example_state)) ! 1 =
       RoutineReference 0 (Some [(''S'', []), (''F'', [(''I'', - 20)])])"
proof -
  let ?st0 = "example_state\<lparr>
        shelve := [''I/S/50/0/0.4'' \<mapsto> - 5, ''S/S/50/0/0.4'' \<mapsto> - 5,
                   ''I/F/50/0/0.4'' \<mapsto> - 15, ''S/F/50/0/0.4'' \<mapsto> - 15],
        solver_calls := [(''I'', ''S'', 50, 0, 2 / 5), (''S'', ''S'', 50, 0, 2 / 5),
                         (''I'', ''F'', 50, 0, 2 / 5), (''S'', ''F'', 50, 0, 2 / 5)],
        heap := [Routine ''kern_at_0'' 12
                   [Positioning [[''F''], [''I'']] [None, Some (- 20)],
                    Positioning [[''F''], [''S'']] [None, Some (- 20)]] (Some [''m'']),
                 RoutineReference 0
                   (Some [(''S'', []), (''F'', [(''I'', - 20), (''S'', - 20)])]),
                 Routine ''ink_to_ink_0'' 12
                   [Positioning [[''S''], [''I'']] [None, Some 20],
                    Positioning [[''S''], [''S'']] [None, Some 20],
                    Positioning [[''F''], [''I'']] [None, Some 20],
                    Positioning [[''F''], [''S'']] [None, Some 20]] None,
                 RoutineReference 2 None,
                 Routine ''dispatch_0'' 8
                   [Chaining [[''S'', ''F''], [''space.urdu''], [''I'', ''S'']] []
                      [Some [3], Some [], Some []],
                    Chaining [[''S'', ''F''], [''I'', ''S'']] [] [Some [1], Some [], Some []]]
                   None],
        routines := [0, 2],
        ink_to_ink_routines := [0 \<mapsto> 3],
        kern_at_rise := [0 \<mapsto> 4]\<rparr>"
  let ?st4 = "example_state\<lparr>
        shelve := [''I/S/50/400/0.4'' \<mapsto> - 5, ''I/F/50/400/0.4'' \<mapsto> - 15],
        solver_calls := [(''I'', ''S'', 50, 400, 2 / 5), (''I'', ''F'', 50, 400, 2 / 5)],
        heap := [Routine ''kern_at_400'' 12 [Positioning [[''F''], [''I'']] [None, Some (- 20)]]
                   (Some [''m'']),
                 RoutineReference 0 (Some [(''S'', []), (''F'', [(''I'', - 20)])])],
        routines := [0],
        kern_at_rise := [400 \<mapsto> 1]\<rparr>"
  have a0: "kern_at_rise example_state 0 = None" and a4: "kern_at_rise example_state 400 = None"
    by (simp_all add: example_state_def)
  have q: "quantize 0 rise_quantization = 0" "quantize 400 rise_quantization = 400"
    by (simp_all add: quantize_int rise_quantization_def)
  have g0: "generate_kern_table_for_rise example_env 0 example_state = (Inr 4, ?st0)"
    by (simp add: generate_kern_table_for_rise_def example_env_def example_state_def
        quantize_int rise_quantization_def kern_quantization_def ends_at_def
        determine_kern_cached_def cache_key_def str_int_def str_nat.simps digit_char_def
        referenceRoutine_def kern_rules_def ink_to_ink_at_def taper_def py_int_def Let_def)
      (simp add: eval_nat_numeral)
  have g4: "generate_kern_table_for_rise example_env 400 example_state = (Inr 1, ?st4)"
    by (simp add: generate_kern_table_for_rise_def example_env_def example_state_def
        quantize_int rise_quantization_def kern_quantization_def ends_at_def
        determine_kern_cached_def cache_key_def str_int_def str_nat.simps digit_char_def
        referenceRoutine_def kern_rules_def Let_def)
  have s: "isols_finas example_state = [''S'', ''F'']" "ends_at example_state 0 = [''I'', ''S'']"
    "length (heap example_state) = 0"
    by (simp_all add: example_state_def ends_at_def)
  from table_for_rise_shape [OF a0 g0]
  have "\<exists>ink. ink_to_ink_routines ?st0 0 = Some ink
      \<and> heap ?st0 ! 4 =
          Routine (''dispatch_'' @ str_int 0) 8
            [Chaining [[''S'', ''F''], [''space.urdu''], [''I'', ''S'']] []
               [Some [ink], Some [], Some []],
             Chaining [[''S'', ''F''], [''I'', ''S'']] [] [Some [1], Some [], Some []]]
            None"
    by (simp only: q s) auto
  then have d: "heap ?st0 ! 4 =
       Routine ''dispatch_0'' 8
         [Chaining [[''S'', ''F''], [''space.urdu''], [''I'', ''S'']] []
            [Some [3], Some [], Some []],
          Chaining [[''S'', ''F''], [''I'', ''S'']] [] [Some [1], Some [], Some []]]
         None"
    by (auto simp add: str_int_def str_nat.simps digit_char_def)
  from table_for_rise_shape [OF a4 g4]
  have t: "heap ?st4 ! 1 = RoutineReference 0 (Some [(''S'', []), (''F'', [(''I'', - 20)])])"
    by (simp only: q s) auto
  have m: "ink_to_ink_routines ?st0 0 = Some 3" by simp
  from a0 a4 q g0 g4 d t m show ?thesis
    by (simp only: fst_conv snd_conv)
qed

text \<open>
  The argument 399 is below 400 and is quantized to 400: the builder returns the
  reference of \<open>kern_at_400\<close>, not a dispatcher. The argument 700 is not clamped: the
  builder asks the solver at height 700 and returns \<open>kern_at_700\<close>.
\<close>

theorem table_for_rise_counterexample:
  "(399 :: int) < 400
   \<and> kern_at_rise example_state 399 = None
   \<and> generate_kern_table_for_rise example_env 399 example_state =
       (Inr 1,
        example_state\<lparr>
          shelve := [''I/S/50/400/0.4'' \<mapsto> - 5, ''I/F/50/400/0.4'' \<mapsto> - 15],
          solver_calls := [(''I'', ''S'', 50, 400, 2 / 5), (''I'', ''F'', 50, 400, 2 / 5)],
          heap := [Routine ''kern_at_400'' 12
                     [Positioning [[''F''], [''I'']] [None, Some (- 20)]] (Some [''m'']),
                   RoutineReference 0 (Some [(''S'', []), (''F'', [(''I'', - 20)])])],
          routines := [0],
          kern_at_rise := [400 \<mapsto> 1]\<rparr>)
   \<and> generate_kern_table_for_rise example_env 700 example_state =
       (Inr 1,
        example_state\<lparr>
          shelve := [''I/S/50/700/0.4'' \<mapsto> - 5, ''I/F/50/700/0.4'' \<mapsto> - 15],
          solver_calls := [(''I'', ''S'', 50, 700, 2 / 5), (''I'', ''F'', 50, 700, 2 / 5)],
          heap := [Routine ''kern_at_700'' 12
                     [Positioning [[''F''], [''I'']] [None, Some (- 20)]] (Some [''m'']),
                   RoutineReference 0 (Some [(''S'', []), (''F'', [(''I'', - 20)])])],
          routines := [0],
          kern_at_rise := [700 \<mapsto> 1]\<rparr>)"
  by (simp add: generate_kern_table_for_rise_def example_env_def example_state_def
      quantize_int rise_quantization_def kern_quantization_def ends_at_def
      determine_kern_cached_def cache_key_def str_int_def str_nat.simps digit_char_def
      referenceRoutine_def kern_rules_def Let_def)

end
